theory Spec2Isabelle
  imports
    Complex_Main
    "HOL-Library.Word"
    "HOL-Library.Char_ord"
    "HOL-Library.List_Lexorder"
    "HOL-Library.Product_Lexorder"
    "HOL-Library.Multiset"
begin

section \<open>Bytes, streams and the binary I/O primitives\<close>

text \<open>
  The PKR tools work on byte streams. A byte is an 8-bit word, a Python \<open>int\<close> that
  is a count, a size or an offset is a \<open>nat\<close>, and a Python \<open>str\<close> is a \<open>string\<close>.
  Exceptions are values: a computation that raises returns \<open>Inl\<close> of the exception
  together with the state reached when it was raised.
\<close>

type_synonym byte = "8 word"

datatype error =
    OSError             \<comment> \<open>a failure of \<open>os.makedirs\<close>\<close>
  | ShortRead           \<comment> \<open>end of stream inside a fixed-width field\<close>
  | KeyError            \<comment> \<open>lookup of a key that a \<open>dict\<close> does not hold\<close>
  | ValueError          \<comment> \<open>\<open>numpy.frombuffer\<close> on a buffer that is no whole number of items\<close>
  | WaveError           \<comment> \<open>\<open>wave.Error\<close>, raised by the \<open>wave\<close> module on parameters it refuses\<close>

definition le32_bytes :: "nat \<Rightarrow> byte list" where
  "le32_bytes v = [of_nat v, of_nat (v div 256), of_nat (v div 65536), of_nat (v div 16777216)]"

definition le32_value :: "byte list \<Rightarrow> nat" where
  "le32_value bs = foldr (\<lambda>b acc. unat b + 256 * acc) bs 0"

definition encode_name :: "string \<Rightarrow> nat \<Rightarrow> byte list" where
  \<comment> \<open>Modelled from the spec: \<open>common.py\<close> is not among the sources. A text field of
      \<open>n\<close> bytes: padded with null bytes when the text is shorter, truncated when longer.\<close>
  "encode_name s n = take n (map of_char s) @ replicate (n - length s) 0"

definition decode_name :: "byte list \<Rightarrow> string" where
  \<comment> \<open>Modelled from the spec: \<open>common.py\<close> is not among the sources. Reading a text
      field stops at the first null byte; the padding is no part of the string.\<close>
  "decode_name bs = map (\<lambda>b. char_of (unat b)) (takeWhile (\<lambda>b. b \<noteq> 0) bs)"

subsection \<open>POSIX path helpers of the Python library\<close>

fun os_path_join :: "string \<Rightarrow> string \<Rightarrow> string" where
  \<comment> \<open>\<open>posixpath.join a b\<close>\<close>
  "os_path_join a b =
     (if b \<noteq> [] \<and> hd b = CHR ''/'' then b
      else if a = [] \<or> last a = CHR ''/'' then a @ b
      else a @ ''/'' @ b)"

fun split_slash :: "string \<Rightarrow> string list" where
  \<comment> \<open>\<open>s.split('/')\<close>\<close>
  "split_slash [] = [[]]"
| "split_slash (c # cs) =
     (if c = CHR ''/'' then [] # split_slash cs
      else (case split_slash cs of p # ps \<Rightarrow> (c # p) # ps | [] \<Rightarrow> [[c]]))"

definition replace_backslash :: "string \<Rightarrow> string" where
  \<comment> \<open>\<open>s.replace('\\', '/')\<close>\<close>
  "replace_backslash s = map (\<lambda>c. if c = CHR 0x5C then CHR ''/'' else c) s"

section \<open>The archive reader: \<open>extract_pkr.py\<close>\<close>

datatype warning =
    UnexpectedMagicVersion nat nat
  | UnexpectedMarker string string nat     \<comment> \<open>file name, directory name, marker read\<close>
  | SizeMismatch string string nat nat     \<comment> \<open>file name, directory name, size1, size2\<close>
  | ShortPayload string nat nat            \<comment> \<open>output path, bytes read, bytes expected\<close>
  | OutputFileError string                 \<comment> \<open>the \<open>IOError\<close> caught around one output file\<close>

text \<open>
  The state of one run of \<open>extract_pkr\<close>: the position of the input stream \<open>f\<close>, the
  counter \<open>known_files\<close>, what has been done to the output tree so far (directories
  made, files written, in order), and the warnings printed to \<open>stderr\<close>.
\<close>

record xstate =
  pos :: nat
  known_files :: nat
  made_dirs :: "string list"
  out_files :: "(string \<times> byte list) list"
  warnings :: "warning list"

text \<open>
  What the operating system answers is a parameter: whether \<open>os.makedirs\<close> on a path
  and \<open>open(path, "wb")\<close> succeed, given everything done so far.
\<close>

record env =
  can_makedirs :: "xstate \<Rightarrow> string \<Rightarrow> bool"
  can_open :: "xstate \<Rightarrow> string \<Rightarrow> bool"

type_synonym 'a result = "(error \<times> xstate) + ('a \<times> xstate)"

definition then_do :: "'a result \<Rightarrow> ('a \<Rightarrow> xstate \<Rightarrow> (error \<times> xstate) + 'b) \<Rightarrow> (error \<times> xstate) + 'b" where
  "then_do m k = (case m of Inl e \<Rightarrow> Inl e | Inr (v, st) \<Rightarrow> k v st)"

definition warn :: "warning \<Rightarrow> xstate \<Rightarrow> xstate" where
  "warn w st = st\<lparr>warnings := warnings st @ [w]\<rparr>"

definition seek :: "nat \<Rightarrow> xstate \<Rightarrow> xstate" where
  "seek off st = st\<lparr>pos := off\<rparr>"

definition fread :: "byte list \<Rightarrow> nat \<Rightarrow> xstate \<Rightarrow> byte list \<times> xstate" where
  \<comment> \<open>\<open>f.read(n)\<close>: the bytes that are there, at most \<open>n\<close>; the position moves past them\<close>
  "fread bs n st =
     (let data = take n (drop (pos st) bs) in (data, st\<lparr>pos := pos st + length data\<rparr>))"

definition read32 :: "byte list \<Rightarrow> xstate \<Rightarrow> nat result" where
  \<comment> \<open>Modelled from the spec: \<open>common.py\<close> is not among the sources. An unsigned 32-bit
      little-endian integer; end of stream before four bytes is an error.\<close>
  "read32 bs st =
     (let (data, st') = fread bs 4 st
      in if length data = 4 then Inr (le32_value data, st') else Inl (ShortRead, st'))"

definition read_string :: "byte list \<Rightarrow> nat \<Rightarrow> xstate \<Rightarrow> string result" where
  \<comment> \<open>Modelled from the spec: \<open>common.py\<close> is not among the sources. A text field of
      \<open>n\<close> bytes; end of stream before \<open>n\<close> bytes is an error.\<close>
  "read_string bs n st =
     (let (data, st') = fread bs n st
      in if length data = n then Inr (decode_name data, st') else Inl (ShortRead, st'))"

definition extract_file :: "env \<Rightarrow> byte list \<Rightarrow> string \<Rightarrow> string \<Rightarrow> xstate \<Rightarrow> (error \<times> xstate) + xstate" where
  \<comment> \<open>the body of the loop over \<open>range(count)\<close>, lines 61 to 86\<close>
  "extract_file e bs name current_dir_export_path st0 =
     then_do (read_string bs 32 st0) (\<lambda>file_name st1.
     then_do (read32 bs st1) (\<lambda>unk1 st2.
     then_do (read32 bs (if unk1 \<noteq> 0xFFFFFFFE then warn (UnexpectedMarker file_name name unk1) st2 else st2))
       (\<lambda>data_offset st3.
     then_do (read32 bs st3) (\<lambda>size1 st4.
     then_do (read32 bs st4) (\<lambda>size2 st5.
       let st6 = (if size1 \<noteq> size2 then warn (SizeMismatch file_name name size1 size2) st5 else st5);
           file_cursor = pos st6;
           st7 = seek data_offset st6;
           file_export_path = os_path_join current_dir_export_path file_name;
           st8 = (if can_open e st7 file_export_path
                  then (let (data, st') = fread bs size1 st7;
                            st'' = (if length data \<noteq> size1
                                    then warn (ShortPayload file_export_path (length data) size1) st'
                                    else st')
                        in st''\<lparr>out_files := out_files st'' @ [(file_export_path, data)]\<rparr>)
                  else warn (OutputFileError file_export_path) st7)
       in Inr (seek file_cursor st8))))))"

fun extract_files :: "env \<Rightarrow> byte list \<Rightarrow> string \<Rightarrow> string \<Rightarrow> nat \<Rightarrow> xstate \<Rightarrow> (error \<times> xstate) + xstate" where
  \<comment> \<open>\<open>for j in range(count)\<close>\<close>
  "extract_files e bs name dir 0 st = Inr st"
| "extract_files e bs name dir (Suc n) st =
     (case extract_file e bs name dir st of
        Inl err \<Rightarrow> Inl err
      | Inr st' \<Rightarrow> extract_files e bs name dir n st')"

record dir_entry =
  de_name :: string
  de_offset :: nat
  de_count :: nat

fun read_dir_entries :: "byte list \<Rightarrow> nat \<Rightarrow> xstate \<Rightarrow> dir_entry list result" where
  \<comment> \<open>\<open>for i in range(num_dir)\<close>, lines 38 to 43\<close>
  "read_dir_entries bs 0 st = Inr ([], st)"
| "read_dir_entries bs (Suc n) st =
     then_do (read_string bs 32 st) (\<lambda>name st1.
     then_do (read32 bs st1) (\<lambda>offset st2.
     then_do (read32 bs st2) (\<lambda>count st3.
     then_do (read_dir_entries bs n st3) (\<lambda>rest st4.
       Inr (\<lparr>de_name = name, de_offset = offset, de_count = count\<rparr> # rest, st4)))))"

definition export_path :: "string \<Rightarrow> string \<Rightarrow> string" where
  \<comment> \<open>\<open>os.path.join(output_base_dir, *[part for part in name.split('/') if part])\<close>\<close>
  "export_path output_base_dir name =
     foldl os_path_join output_base_dir (filter (\<lambda>part. part \<noteq> []) (split_slash name))"

definition makedirs :: "env \<Rightarrow> string \<Rightarrow> xstate \<Rightarrow> (error \<times> xstate) + xstate" where
  \<comment> \<open>\<open>os.makedirs(path, exist_ok=True)\<close>\<close>
  "makedirs e path st =
     (if can_makedirs e st path then Inr (st\<lparr>made_dirs := made_dirs st @ [path]\<rparr>)
      else Inl (OSError, st))"

definition extract_dir :: "env \<Rightarrow> byte list \<Rightarrow> string \<Rightarrow> dir_entry \<Rightarrow> xstate \<Rightarrow> (error \<times> xstate) + xstate" where
  \<comment> \<open>the body of the loop over \<open>dir_entries\<close>, lines 46 to 86\<close>
  "extract_dir e bs output_base_dir entry st =
     (let current_dir_export_path = export_path output_base_dir (de_name entry)
      in case makedirs e current_dir_export_path st of
           Inl err \<Rightarrow> Inl err
         | Inr st1 \<Rightarrow>
             extract_files e bs (de_name entry) current_dir_export_path (de_count entry)
               (seek (de_offset entry) (st1\<lparr>known_files := known_files st1 + de_count entry\<rparr>)))"

fun extract_dirs :: "env \<Rightarrow> byte list \<Rightarrow> string \<Rightarrow> dir_entry list \<Rightarrow> xstate \<Rightarrow> (error \<times> xstate) + xstate" where
  "extract_dirs e bs base [] st = Inr st"
| "extract_dirs e bs base (entry # entries) st =
     (case extract_dir e bs base entry st of
        Inl err \<Rightarrow> Inl err
      | Inr st' \<Rightarrow> extract_dirs e bs base entries st')"

definition read_tables :: "env \<Rightarrow> byte list \<Rightarrow> string \<Rightarrow> xstate \<Rightarrow> dir_entry list result" where
  \<comment> \<open>lines 22 to 43: the header, the output root, the directory table\<close>
  "read_tables e bs output_base_dir st0 =
     then_do (read32 bs st0) (\<lambda>magic st1.
     then_do (read32 bs st1) (\<lambda>version st2.
     then_do (read32 bs st2) (\<lambda>num_dir st3.
     then_do (read32 bs st3) (\<lambda>num_file st4.
       case makedirs e output_base_dir
              (if magic \<noteq> 0x32524B50 \<or> version \<noteq> 0x00000001
               then warn (UnexpectedMagicVersion magic version) st4 else st4) of
         Inl err \<Rightarrow> Inl err
       | Inr st5 \<Rightarrow> read_dir_entries bs num_dir st5))))"

definition extract_body :: "env \<Rightarrow> byte list \<Rightarrow> string \<Rightarrow> xstate \<Rightarrow> (error \<times> xstate) + xstate" where
  \<comment> \<open>the body of \<open>with open(pkr_file_path, "rb") as f\<close>\<close>
  "extract_body e bs output_base_dir st0 =
     then_do (read_tables e bs output_base_dir st0) (\<lambda>dir_entries st.
       extract_dirs e bs output_base_dir dir_entries st)"

datatype input_file = NoSuchFile | Unreadable | Content "byte list"

definition xstate0 :: xstate where
  "xstate0 = \<lparr>pos = 0, known_files = 0, made_dirs = [], out_files = [], warnings = []\<rparr>"

definition extract_pkr :: "env \<Rightarrow> input_file \<Rightarrow> string \<Rightarrow> bool \<times> xstate" where
  \<comment> \<open>Both handlers, \<open>except FileNotFoundError\<close> and \<open>except Exception\<close>, return False.\<close>
  "extract_pkr e pkr_file output_base_dir =
     (case pkr_file of
        NoSuchFile \<Rightarrow> (False, xstate0)
      | Unreadable \<Rightarrow> (False, xstate0)
      | Content bs \<Rightarrow>
          (case extract_body e bs output_base_dir xstate0 of
             Inl (err, st) \<Rightarrow> (False, st)
           | Inr st \<Rightarrow> (True, st)))"

section \<open>The archive writer: \<open>repack_pkr.py\<close>\<close>

text \<open>
  The input is a directory tree on disk. A directory lists its files and its
  subdirectories in the order in which the file system enumerates them; a name is a
  file name (not empty, without a slash). Of a file the writer sees the size that
  \<open>os.path.getsize\<close> reports while the tree is walked and, later, what reading it gives:
  its bytes, or nothing when the read raises \<open>IOError\<close>.
\<close>

record srcfile =
  file_size :: nat
  file_data :: "byte list option"

datatype dtree = Dir (dir_files: "(string \<times> srcfile) list") (dir_subdirs: "(string \<times> dtree) list")

definition hidden :: "string \<Rightarrow> bool" where
  \<comment> \<open>\<open>name.startswith('.')\<close>\<close>
  "hidden name = (case name of [] \<Rightarrow> False | c # _ \<Rightarrow> c = CHR ''.'')"

fun os_walk :: "string \<Rightarrow> dtree \<Rightarrow> (string \<times> (string \<times> srcfile) list) list" where
  \<comment> \<open>\<open>os.walk\<close>, top down, with the path of each directory relative to the top as
      \<open>os.path.relpath\<close> gives it (\<open>.\<close> for the top). The loop body prunes \<open>dirnames\<close>
      in place, so the walk does not descend into a hidden directory.\<close>
  "os_walk relative_dir (Dir files subdirs) =
     (relative_dir, files) #
     concat (map (\<lambda>(d, t). os_walk (if relative_dir = ''.'' then d else relative_dir @ ''/'' @ d) t)
                 (filter (\<lambda>(d, t). \<not> hidden d) subdirs))"

definition pkr_dir_name_of :: "string \<Rightarrow> string" where
  \<comment> \<open>lines 34 to 37\<close>
  "pkr_dir_name_of root_rel =
     (let relative_dir = replace_backslash root_rel;
          pkr_dir_name = (if relative_dir \<noteq> ''.'' then relative_dir else ''/'')
      in if pkr_dir_name \<noteq> ''/'' \<and> \<not> (pkr_dir_name \<noteq> [] \<and> last pkr_dir_name = CHR ''/'')
         then pkr_dir_name @ ''/'' else pkr_dir_name)"

record file_info =
  fi_dir :: string                    \<comment> \<open>\<open>pkr_dir_name\<close>\<close>
  fi_name :: string                   \<comment> \<open>\<open>file_name\<close>\<close>
  fi_source :: "byte list option"     \<comment> \<open>what reading \<open>full_file_path\<close> gives\<close>
  fi_size :: nat                      \<comment> \<open>\<open>file_size\<close>\<close>

fun dict_extend :: "string \<Rightarrow> string list \<Rightarrow> (string \<times> string list) list \<Rightarrow> (string \<times> string list) list" where
  \<comment> \<open>lines 40, 41 and 47 on the dict \<open>temp_dirs\<close>, kept in insertion order:
      a new key starts with the empty list, then the list is extended\<close>
  "dict_extend k vs [] = [(k, vs)]"
| "dict_extend k vs ((k', vs') # d) =
     (if k = k' then (k', vs' @ vs) # d else (k', vs') # dict_extend k vs d)"

record collected =
  temp_dirs :: "(string \<times> string list) list"
  all_files_info :: "file_info list"
  total_file_count :: nat

definition collect_dir :: "string \<times> (string \<times> srcfile) list \<Rightarrow> collected \<Rightarrow> collected" where
  \<comment> \<open>the body of the loop over \<open>os.walk\<close>, lines 34 to 53\<close>
  "collect_dir entry c =
     (let pkr_dir_name = pkr_dir_name_of (fst entry);
          files = filter (\<lambda>(f, src). \<not> hidden f) (snd entry)
      in \<lparr>temp_dirs = dict_extend pkr_dir_name (map fst files) (temp_dirs c),
          all_files_info = all_files_info c @
            map (\<lambda>(f, src). \<lparr>fi_dir = pkr_dir_name, fi_name = f,
                               fi_source = file_data src, fi_size = file_size src\<rparr>) files,
          total_file_count = total_file_count c + length files\<rparr>)"

definition collect :: "dtree \<Rightarrow> collected" where
  "collect tree =
     fold collect_dir (os_walk ''.'' tree) \<lparr>temp_dirs = [], all_files_info = [], total_file_count = 0\<rparr>"

definition files_of :: "(string \<times> string list) list \<Rightarrow> string \<Rightarrow> string list" where
  \<comment> \<open>\<open>temp_dirs[pkr_dir_name]\<close> for a key of the dict\<close>
  "files_of d k = (case map_of d k of Some vs \<Rightarrow> vs | None \<Rightarrow> [])"

definition dirs_to_pack_of :: "(string \<times> string list) list \<Rightarrow> (string \<times> string list) list" where
  \<comment> \<open>lines 57 to 59: the sorted keys of \<open>temp_dirs\<close>, each with its sorted files\<close>
  "dirs_to_pack_of td =
     map (\<lambda>pkr_dir_name. (pkr_dir_name, sort (files_of td pkr_dir_name))) (sort (map fst td))"

definition sort_files_info :: "file_info list \<Rightarrow> file_info list" where
  \<comment> \<open>\<open>all_files_info.sort(key=lambda x: (x[0], x[1]))\<close>\<close>
  "sort_files_info infos = sort_key (\<lambda>x. (fi_dir x, fi_name x)) infos"

subsection \<open>The layout plan\<close>

definition PKR_MAGIC :: nat where "PKR_MAGIC = 0x32524B50"
definition PKR_VERSION :: nat where "PKR_VERSION = 0x00000001"
definition header_size :: nat where "header_size = 16"
definition dir_entry_size :: nat where "dir_entry_size = 32 + 4 + 4"
definition file_entry_size :: nat where "file_entry_size = 32 + 4 + 4 + 4 + 4"

record table_plan =
  dir_offsets :: "string \<rightharpoonup> nat"
  total_file_tables_size :: nat
  current_file_table_offset :: nat

fun plan_file_tables :: "(string \<times> string list) list \<Rightarrow> table_plan \<Rightarrow> table_plan" where
  \<comment> \<open>lines 79 to 83\<close>
  "plan_file_tables [] p = p"
| "plan_file_tables ((pkr_dir_name, filenames) # ds) p =
     plan_file_tables ds
       \<lparr>dir_offsets = (dir_offsets p)(pkr_dir_name \<mapsto> current_file_table_offset p),
        total_file_tables_size = total_file_tables_size p + length filenames * file_entry_size,
        current_file_table_offset = current_file_table_offset p + length filenames * file_entry_size\<rparr>"

definition file_key_of :: "string \<Rightarrow> string \<Rightarrow> string" where
  \<comment> \<open>\<open>os.path.join(pkr_dir_name, file_name).replace('\\', '/')\<close>\<close>
  "file_key_of pkr_dir_name file_name = replace_backslash (os_path_join pkr_dir_name file_name)"

fun plan_file_data :: "file_info list \<Rightarrow> (string \<rightharpoonup> nat) \<times> nat \<Rightarrow> (string \<rightharpoonup> nat) \<times> nat" where
  \<comment> \<open>lines 85 to 89: the loop computes \<open>file_key\<close> and advances \<open>current_data_offset\<close>;
      it stores nothing in \<open>file_data_offsets\<close>\<close>
  "plan_file_data [] (file_data_offsets, current_data_offset) = (file_data_offsets, current_data_offset)"
| "plan_file_data (info # infos) (file_data_offsets, current_data_offset) =
     plan_file_data infos (file_data_offsets, current_data_offset + fi_size info)"

record plan =
  dirs_to_pack :: "(string \<times> string list) list"
  files_info :: "file_info list"
  file_count :: nat
  dir_table_size :: nat
  tables :: table_plan
  file_data_offsets :: "string \<rightharpoonup> nat"

definition layout_plan :: "dtree \<Rightarrow> plan" where
  \<comment> \<open>lines 24 to 89: everything computed before the output file is opened\<close>
  "layout_plan tree =
     (let c = collect tree;
          dirs = dirs_to_pack_of (temp_dirs c);
          infos = sort_files_info (all_files_info c);
          num_directories = length dirs;
          dts = num_directories * dir_entry_size;
          tp = plan_file_tables dirs
                 \<lparr>dir_offsets = Map.empty, total_file_tables_size = 0,
                  current_file_table_offset = header_size + dts\<rparr>;
          fdo = fst (plan_file_data infos
                 (Map.empty, header_size + dts + total_file_tables_size tp))
      in \<lparr>dirs_to_pack = dirs, files_info = infos, file_count = total_file_count c,
          dir_table_size = dts, tables = tp, file_data_offsets = fdo\<rparr>)"

subsection \<open>Writing the archive\<close>

text \<open>
  The output file \<open>f\<close>, opened with mode \<open>wb\<close>: its bytes and its position. Writing
  past the end fills the gap with null bytes; seeking alone writes nothing.
\<close>

record wfile =
  wbytes :: "byte list"
  wpos :: nat

definition fwrite :: "byte list \<Rightarrow> wfile \<Rightarrow> wfile" where
  "fwrite data f =
     \<lparr>wbytes = take (wpos f) (wbytes f) @ replicate (wpos f - length (wbytes f)) 0 @ data @
               drop (wpos f + length data) (wbytes f),
      wpos = wpos f + length data\<rparr>"

definition wseek :: "nat \<Rightarrow> wfile \<Rightarrow> wfile" where
  "wseek off f = f\<lparr>wpos := off\<rparr>"

definition write32 :: "nat \<Rightarrow> wfile \<Rightarrow> wfile" where
  \<comment> \<open>Modelled from the spec: \<open>common.py\<close> is not among the sources. An unsigned 32-bit
      little-endian integer; the spec gives writing no failure, so the four low bytes
      of the value are written.\<close>
  "write32 v f = fwrite (le32_bytes v) f"

definition write_string :: "string \<Rightarrow> nat \<Rightarrow> wfile \<Rightarrow> wfile" where
  \<comment> \<open>Modelled from the spec: \<open>common.py\<close> is not among the sources. A text field of
      \<open>n\<close> bytes, padded or truncated.\<close>
  "write_string s n f = fwrite (encode_name s n) f"

definition dict_get :: "(string \<rightharpoonup> nat) \<Rightarrow> string \<Rightarrow> wfile \<Rightarrow> (error \<times> wfile) + nat" where
  \<comment> \<open>\<open>d[key]\<close>\<close>
  "dict_get d key f = (case d key of None \<Rightarrow> Inl (KeyError, f) | Some v \<Rightarrow> Inr v)"

definition write_header :: "plan \<Rightarrow> wfile \<Rightarrow> wfile" where
  \<comment> \<open>lines 94 to 97\<close>
  "write_header p f =
     write32 (file_count p) (write32 (length (dirs_to_pack p)) (write32 PKR_VERSION (write32 PKR_MAGIC f)))"

fun write_dir_table :: "plan \<Rightarrow> (string \<times> string list) list \<Rightarrow> wfile \<Rightarrow> (error \<times> wfile) + wfile" where
  \<comment> \<open>lines 101 to 107\<close>
  "write_dir_table p [] f = Inr f"
| "write_dir_table p ((pkr_dir_name, filenames) # ds) f =
     (case dict_get (dir_offsets (tables p)) pkr_dir_name f of
        Inl err \<Rightarrow> Inl err
      | Inr offset \<Rightarrow>
          write_dir_table p ds
            (write32 (length filenames) (write32 offset (write_string pkr_dir_name 32 f))))"

definition write_file_entry :: "plan \<Rightarrow> string \<Rightarrow> string \<Rightarrow> wfile \<Rightarrow> (error \<times> wfile) + wfile" where
  \<comment> \<open>the body of the loop over \<open>filenames\<close>, lines 116 to 127\<close>
  "write_file_entry p pkr_dir_name file_name f =
     (let file_key = file_key_of pkr_dir_name file_name
      in case find (\<lambda>info. file_key_of (fi_dir info) (fi_name info) = file_key) (files_info p) of
           None \<Rightarrow> Inr f
         | Some info \<Rightarrow>
             (case dict_get (file_data_offsets p) file_key f of
                Inl err \<Rightarrow> Inl err
              | Inr data_offset \<Rightarrow>
                  Inr (write32 (fi_size info) (write32 (fi_size info)
                        (write32 0xFFFFFFFE (write_string file_name 32 f))))))"

fun write_file_entries :: "plan \<Rightarrow> string \<Rightarrow> string list \<Rightarrow> wfile \<Rightarrow> (error \<times> wfile) + wfile" where
  "write_file_entries p pkr_dir_name [] f = Inr f"
| "write_file_entries p pkr_dir_name (file_name # filenames) f =
     (case write_file_entry p pkr_dir_name file_name f of
        Inl err \<Rightarrow> Inl err
      | Inr f' \<Rightarrow> write_file_entries p pkr_dir_name filenames f')"

fun write_file_tables :: "plan \<Rightarrow> (string \<times> string list) list \<Rightarrow> wfile \<Rightarrow> (error \<times> wfile) + wfile" where
  \<comment> \<open>lines 110 to 127\<close>
  "write_file_tables p [] f = Inr f"
| "write_file_tables p ((pkr_dir_name, filenames) # ds) f =
     (case dict_get (dir_offsets (tables p)) pkr_dir_name f of
        Inl err \<Rightarrow> Inl err
      | Inr offset \<Rightarrow>
          (case write_file_entries p pkr_dir_name filenames (wseek offset f) of
             Inl err \<Rightarrow> Inl err
           | Inr f' \<Rightarrow> write_file_tables p ds f'))"

definition write_payload :: "plan \<Rightarrow> file_info \<Rightarrow> wfile \<Rightarrow> (error \<times> wfile) + wfile" where
  \<comment> \<open>the body of the loop over \<open>all_files_info\<close>, lines 132 to 148\<close>
  "write_payload p info f =
     (case dict_get (file_data_offsets p) (file_key_of (fi_dir info) (fi_name info)) f of
        Inl err \<Rightarrow> Inl err
      | Inr data_offset \<Rightarrow>
          (let f1 = (if wpos f \<noteq> data_offset then wseek data_offset f else f)
           in case fi_source info of
                Some data \<Rightarrow> Inr (fwrite data f1)
              | None \<Rightarrow> Inr (fwrite (replicate (fi_size info) 0) f1)))"

fun write_payloads :: "plan \<Rightarrow> file_info list \<Rightarrow> wfile \<Rightarrow> (error \<times> wfile) + wfile" where
  "write_payloads p [] f = Inr f"
| "write_payloads p (info # infos) f =
     (case write_payload p info f of
        Inl err \<Rightarrow> Inl err
      | Inr f' \<Rightarrow> write_payloads p infos f')"

definition write_archive :: "plan \<Rightarrow> wfile \<Rightarrow> (error \<times> wfile) + wfile" where
  \<comment> \<open>the body of \<open>with open(output_pkr_file, "wb") as f\<close>, lines 93 to 148\<close>
  "write_archive p f =
     (case write_dir_table p (dirs_to_pack p) (write_header p f) of
        Inl err \<Rightarrow> Inl err
      | Inr f1 \<Rightarrow>
          (case write_file_tables p (dirs_to_pack p) f1 of
             Inl err \<Rightarrow> Inl err
           | Inr f2 \<Rightarrow>
               write_payloads p (files_info p)
                 (wseek (header_size + dir_table_size p + total_file_tables_size (tables p)) f2)))"

definition repack_pkr :: "dtree \<Rightarrow> bool \<Rightarrow> bool \<times> byte list option" where
  \<comment> \<open>The second argument says whether \<open>output_pkr_file\<close> can be opened for writing.
      The result is the value returned and the bytes of the output file, if there is
      one. An exception inside the \<open>with\<close> block closes the file with what was written
      and both handlers return False.\<close>
  "repack_pkr input_dir output_opens =
     (let p = layout_plan input_dir
      in if \<not> output_opens then (False, None)
         else (case write_archive p \<lparr>wbytes = [], wpos = 0\<rparr> of
                 Inl (err, f) \<Rightarrow> (False, Some (wbytes f))
               | Inr f \<Rightarrow> (True, Some (wbytes f))))"

section \<open>The volume scaler: \<open>adjust_wav_volume.py\<close>\<close>

record wav_params =
  nchannels :: nat
  sampwidth :: nat
  framerate :: nat
  nframes :: nat
  comptype :: string
  compname :: string

text \<open>
  What \<open>wave.open\<close> and \<open>readframes\<close> give for the input path: no such file, a file
  that the \<open>wave\<close> module refuses (\<open>wave.Error\<close>), or the parameters and the frame
  buffer of a WAV file.
\<close>

datatype wav_input = WavMissing | WavInvalid | Wav wav_params "byte list"

definition int16_of :: "byte \<Rightarrow> byte \<Rightarrow> int" where
  \<comment> \<open>two bytes read as a little-endian signed 16-bit sample\<close>
  "int16_of lo hi =
     (let u = int (unat lo) + 256 * int (unat hi) in if u < 32768 then u else u - 65536)"

fun int16_items :: "byte list \<Rightarrow> int list" where
  "int16_items (lo # hi # bs) = int16_of lo hi # int16_items bs"
| "int16_items bs = []"

definition frombuffer_int16 :: "byte list \<Rightarrow> error + int list" where
  \<comment> \<open>\<open>np.frombuffer(frames, dtype=np.int16)\<close>: a buffer whose size is no multiple of
      the item size raises \<open>ValueError\<close>\<close>
  "frombuffer_int16 frames =
     (if length frames mod 2 \<noteq> 0 then Inl ValueError else Inr (int16_items frames))"

definition min_val :: real where "min_val = - 32768"
definition max_val :: real where "max_val = 32767"

definition np_clip :: "real \<Rightarrow> real \<Rightarrow> real \<Rightarrow> real" where
  "np_clip x lo hi = min (max x lo) hi"

definition astype_int16 :: "real \<Rightarrow> int" where
  \<comment> \<open>the cast of a value inside the 16-bit range: the fraction is dropped\<close>
  "astype_int16 x = (if x < 0 then \<lceil>x\<rceil> else \<lfloor>x\<rfloor>)"

definition int16_bytes :: "int \<Rightarrow> byte list" where
  "int16_bytes v = [of_int v, of_int (v div 256)]"

text \<open>
  The output side, lines 45 to 47. Whether \<open>wave.open(output_wav_path, 'wb')\<close>
  succeeds, and whether \<open>writeframes\<close> and the closing of the file succeed for given
  parameters and frames (packing the header raises \<open>struct.error\<close> when a header
  field overflows, a write can raise \<open>OSError\<close>), are parameters. Between the two,
  \<open>setparams\<close> of the \<open>wave\<close> module refuses parameters that the reader accepts: a
  sample width above 4 bytes and a sample rate of 0.
\<close>

record wav_output =
  wave_opens :: bool
  frames_written :: "wav_params \<Rightarrow> byte list \<Rightarrow> bool"

definition setparams :: "wav_params \<Rightarrow> error + unit" where
  \<comment> \<open>\<open>Wave_write.setparams\<close> of the standard library: \<open>setnchannels\<close>,
      \<open>setsampwidth\<close>, \<open>setframerate\<close>, \<open>setnframes\<close>, \<open>setcomptype\<close>\<close>
  "setparams params =
     (if nchannels params < 1 then Inl WaveError
      else if sampwidth params < 1 \<or> sampwidth params > 4 then Inl WaveError
      else if framerate params \<le> 0 then Inl WaveError
      else if comptype params \<noteq> ''NONE'' then Inl WaveError
      else Inr ())"

definition adjust_volume :: "(int \<Rightarrow> real) \<Rightarrow> wav_input \<Rightarrow> wav_output \<Rightarrow> bool \<times> (wav_params \<times> byte list) option" where
  \<comment> \<open>The first argument is the product \<open>float64(sample) * factor\<close> as a function of
      the sample, for a factor that keeps it finite. The result is the value returned and
      the parameters and frames written, if the output is written. Every handler returns
      False.\<close>
  "adjust_volume times_factor input_wav out =
     (case input_wav of
        WavMissing \<Rightarrow> (False, None)
      | WavInvalid \<Rightarrow> (False, None)
      | Wav params frames \<Rightarrow>
          if comptype params \<noteq> ''NONE'' then (False, None)
          else (case frombuffer_int16 frames of
                  Inl err \<Rightarrow> (False, None)
                | Inr audio_data \<Rightarrow>
                    (let adjusted_data = map (\<lambda>s. astype_int16 (np_clip (times_factor s) min_val max_val)) audio_data;
                         adjusted_frames = concat (map int16_bytes adjusted_data)
                     in if \<not> wave_opens out then (False, None)
                        else (case setparams params of
                                Inl err \<Rightarrow> (False, None)
                              | Inr u \<Rightarrow>
                                  if frames_written out params adjusted_frames
                                  then (True, Some (params, adjusted_frames))
                                  else (False, None)))))"

section \<open>Notions used to state the properties\<close>

text \<open>
  The fields of the 48-byte FileEntry that starts at position \<open>p\<close> of a stream, as
  the reader decodes them: name at \<open>p\<close>, marker at \<open>p + 32\<close>, payload offset at
  \<open>p + 36\<close>, size1 at \<open>p + 40\<close>, size2 at \<open>p + 44\<close>.
\<close>

definition field32 :: "byte list \<Rightarrow> nat \<Rightarrow> nat" where
  "field32 bs p = le32_value (take 4 (drop p bs))"

definition name_at :: "byte list \<Rightarrow> nat \<Rightarrow> string" where
  "name_at bs p = decode_name (take 32 (drop p bs))"

definition payload :: "byte list \<Rightarrow> nat \<Rightarrow> byte list" where
  \<comment> \<open>size1 bytes from the payload offset, as far as the stream has them\<close>
  "payload bs p = take (field32 bs (p + 40)) (drop (field32 bs (p + 36)) bs)"

definition entry_warnings :: "byte list \<Rightarrow> string \<Rightarrow> string \<Rightarrow> nat \<Rightarrow> warning list" where
  "entry_warnings bs name dir p =
     (if field32 bs (p + 32) \<noteq> 0xFFFFFFFE
      then [UnexpectedMarker (name_at bs p) name (field32 bs (p + 32))] else []) @
     (if field32 bs (p + 40) \<noteq> field32 bs (p + 44)
      then [SizeMismatch (name_at bs p) name (field32 bs (p + 40)) (field32 bs (p + 44))] else []) @
     (if length (payload bs p) \<noteq> field32 bs (p + 40)
      then [ShortPayload (os_path_join dir (name_at bs p)) (length (payload bs p)) (field32 bs (p + 40))]
      else [])"


fun is_output_error :: "warning \<Rightarrow> bool" where
  "is_output_error (OutputFileError path) = True"
| "is_output_error w = False"

definition processed :: "xstate \<Rightarrow> nat" where
  \<comment> \<open>the FileEntry records gone through: a file written, or its \<open>IOError\<close> logged\<close>
  "processed st = length (out_files st) + length (filter is_output_error (warnings st))"

text \<open>
  Two trees are the same tree enumerated in different orders when, at every directory,
  the files of one are a permutation of the files of the other, and so are the
  subdirectories, which are again the same up to the order of enumeration.
\<close>

inductive same_tree :: "dtree \<Rightarrow> dtree \<Rightarrow> bool" where
  same_tree_Dir:
    "mset files = mset files' \<Longrightarrow>
     list_all2 (\<lambda>x y. fst x = fst y \<and> same_tree (snd x) (snd y)) subdirs subdirs1 \<Longrightarrow>
     mset subdirs1 = mset subdirs' \<Longrightarrow>
     same_tree (Dir files subdirs) (Dir files' subdirs')"

text \<open>
  The scenario of the specification: a root directory with the directory \<open>audio\<close>,
  which holds \<open>a.bin\<close> (the three bytes 1, 2, 3) and the empty file \<open>b.bin\<close>.
\<close>

definition scenario_tree :: dtree where
  "scenario_tree =
     Dir [] [(''audio'',
              Dir [(''a.bin'', \<lparr>file_size = 3, file_data = Some [1, 2, 3]\<rparr>),
                   (''b.bin'', \<lparr>file_size = 0, file_data = Some []\<rparr>)] [])]"

definition permissive :: env where
  \<comment> \<open>an output location where every directory and every file can be created\<close>
  "permissive = \<lparr>can_makedirs = (\<lambda>st path. True), can_open = (\<lambda>st path. True)\<rparr>"

text \<open>
  An archive with anomalies: magic 0 instead of the expected constant, one directory
  \<open>/\<close> whose file table is at offset 56 and has two records. Record \<open>a\<close> has the
  sizes 2 and 5 and its payload at offset 152; record \<open>b\<close> has the marker 7 and asks
  for 4 bytes at offset 153, where only 2 are left. The stream has 155 bytes.
\<close>

definition example_archive :: "byte list" where
  "example_archive = [0,0,0,0, 1,0,0,0, 1,0,0,0, 2,0,0,0,
   47,0,0,0,0,0,0,0, 0,0,0,0,0,0,0,0, 0,0,0,0,0,0,0,0, 0,0,0,0,0,0,0,0, 56,0,0,0, 2,0,0,0,
   97,0,0,0,0,0,0,0, 0,0,0,0,0,0,0,0, 0,0,0,0,0,0,0,0, 0,0,0,0,0,0,0,0, 254,255,255,255, 152,0,0,0, 2,0,0,0, 5,0,0,0,
   98,0,0,0,0,0,0,0, 0,0,0,0,0,0,0,0, 0,0,0,0,0,0,0,0, 0,0,0,0,0,0,0,0, 7,0,0,0, 153,0,0,0, 4,0,0,0, 4,0,0,0,
   7,8,9]"

text \<open>
  The same scenario with the two files of \<open>audio\<close> enumerated in the other order.
\<close>

definition shuffled_scenario_tree :: dtree where
  "shuffled_scenario_tree =
     Dir [] [(''audio'',
              Dir [(''b.bin'', \<lparr>file_size = 0, file_data = Some []\<rparr>),
                   (''a.bin'', \<lparr>file_size = 3, file_data = Some [1, 2, 3]\<rparr>)] [])]"

text \<open>
  The 96 bytes that \<open>repack_pkr\<close> leaves in the output file for the scenario: the
  header (two directories, two files) and the directory table (\<open>/\<close> with no file and
  \<open>audio/\<close> with two files, both file tables at offset 96).
\<close>

definition scenario_archive :: "byte list" where
  "scenario_archive = [80,75,82,50, 1,0,0,0, 2,0,0,0, 2,0,0,0,
     47,0,0,0,0,0,0,0, 0,0,0,0,0,0,0,0, 0,0,0,0,0,0,0,0, 0,0,0,0,0,0,0,0, 96,0,0,0, 0,0,0,0,
     97,117,100,105,111,47,0,0, 0,0,0,0,0,0,0,0, 0,0,0,0,0,0,0,0, 0,0,0,0,0,0,0,0, 96,0,0,0, 2,0,0,0]"

definition scenario_infos :: "file_info list" where
  "scenario_infos =
     [\<lparr>fi_dir = ''audio/'', fi_name = ''a.bin'', fi_source = Some [1, 2, 3], fi_size = 3\<rparr>,
      \<lparr>fi_dir = ''audio/'', fi_name = ''b.bin'', fi_source = Some [], fi_size = 0\<rparr>]"

text \<open>
  What the walk collects, up to the order of enumeration: a directory of the walk
  with its files as a multiset, the multiset of the directories met, and the file
  records a directory contributes.
\<close>

definition norm_entry :: "string \<times> (string \<times> srcfile) list \<Rightarrow> string \<times> (string \<times> srcfile) multiset" where
  "norm_entry e = (fst e, mset (snd e))"

definition walk_ms :: "string \<Rightarrow> dtree \<Rightarrow> (string \<times> (string \<times> srcfile) multiset) multiset" where
  "walk_ms r t = image_mset norm_entry (mset (os_walk r t))"

definition entry_infos :: "string \<times> (string \<times> srcfile) multiset \<Rightarrow> file_info multiset" where
  "entry_infos ne =
     image_mset (\<lambda>x. \<lparr>fi_dir = pkr_dir_name_of (fst ne), fi_name = fst x,
                       fi_source = file_data (snd x), fi_size = file_size (snd x)\<rparr>)
       (filter_mset (\<lambda>x. \<not> hidden (fst x)) (snd ne))"

definition child_rel :: "string \<Rightarrow> string \<Rightarrow> string" where
  "child_rel r d = (if r = ''.'' then d else r @ ''/'' @ d)"

text \<open>
  The name of a collected file in the archive, the key by which \<open>all_files_info\<close> is
  sorted; and a tree of two empty directories in two orders of enumeration.
\<close>

definition info_key :: "file_info \<Rightarrow> string \<times> string" where
  "info_key = (\<lambda>x. (fi_dir x, fi_name x))"

definition empty_dirs_tree :: dtree where
  "empty_dirs_tree = Dir [] [(''b'', Dir [] []), (''a'', Dir [] [])]"

definition shuffled_empty_dirs_tree :: dtree where
  "shuffled_empty_dirs_tree = Dir [] [(''a'', Dir [] []), (''b'', Dir [] [])]"

text \<open>
  For the volume scaler: the factor 0.5, whose product with a 16-bit sample is exact in
  float64, and the parameters of an 8-bit mono file.
\<close>

definition half_volume :: "int \<Rightarrow> real" where
  "half_volume s = real_of_int s * 0.5"

definition mono8 :: wav_params where
  "mono8 = \<lparr>nchannels = 1, sampwidth = 1, framerate = 8000, nframes = 3,
            comptype = ''NONE'', compname = ''not compressed''\<rparr>"

definition mono8_rate0 :: wav_params where
  \<comment> \<open>an 8-bit mono file whose header gives the sample rate 0\<close>
  "mono8_rate0 = \<lparr>nchannels = 1, sampwidth = 1, framerate = 0, nframes = 4,
            comptype = ''NONE'', compname = ''not compressed''\<rparr>"

definition writable :: wav_output where
  \<comment> \<open>an output path that opens and takes every write\<close>
  "writable = \<lparr>wave_opens = True, frames_written = (\<lambda>params frames. True)\<rparr>"

section \<open>Properties of the reader\<close>

declare os_path_join.simps [simp del]

lemma then_do_Inr [simp]: "then_do (Inr (v, st)) k = k v st"
  by (simp add: then_do_def)

lemma then_do_Inl [simp]: "then_do (Inl x) k = Inl x"
  by (simp add: then_do_def)

lemma read32_eq:
  "read32 bs st =
     (if pos st + 4 \<le> length bs then Inr (field32 bs (pos st), st\<lparr>pos := pos st + 4\<rparr>)
      else Inl (ShortRead, st\<lparr>pos := pos st + length (take 4 (drop (pos st) bs))\<rparr>))"
  by (auto simp add: read32_def fread_def field32_def Let_def)

lemma read_string32_eq:
  "read_string bs 32 st =
     (if pos st + 32 \<le> length bs then Inr (name_at bs (pos st), st\<lparr>pos := pos st + 32\<rparr>)
      else Inl (ShortRead, st\<lparr>pos := pos st + length (take 32 (drop (pos st) bs))\<rparr>))"
  by (auto simp add: read_string_def fread_def name_at_def Let_def)

lemma pos_warn [simp]: "pos (warn w st) = pos st"
  by (simp add: warn_def)

text \<open>The five reads of one FileEntry, when the 48 bytes are there.\<close>

lemma extract_file_reads:
  assumes "pos st + 48 \<le> length bs"
  shows "extract_file e bs name dir st =
     (let file_name = name_at bs (pos st);
          unk1 = field32 bs (pos st + 32);
          data_offset = field32 bs (pos st + 36);
          size1 = field32 bs (pos st + 40);
          size2 = field32 bs (pos st + 44);
          st5 = (if unk1 \<noteq> 0xFFFFFFFE then warn (UnexpectedMarker file_name name unk1) st else st)\<lparr>pos := pos st + 48\<rparr>;
          st6 = (if size1 \<noteq> size2 then warn (SizeMismatch file_name name size1 size2) st5 else st5);
          st7 = seek data_offset st6;
          file_export_path = os_path_join dir file_name;
          st8 = (if can_open e st7 file_export_path
                 then (let (data, st') = fread bs size1 st7;
                           st'' = (if length data \<noteq> size1
                                   then warn (ShortPayload file_export_path (length data) size1) st'
                                   else st')
                       in st''\<lparr>out_files := out_files st'' @ [(file_export_path, data)]\<rparr>)
                 else warn (OutputFileError file_export_path) st7)
      in Inr (seek (pos st + 48) st8))"
proof -
  have 1: "read_string bs 32 st = Inr (name_at bs (pos st), st\<lparr>pos := pos st + 32\<rparr>)"
    using assms by (simp add: read_string32_eq)
  have 2: "read32 bs (st\<lparr>pos := pos st + 32\<rparr>) = Inr (field32 bs (pos st + 32), st\<lparr>pos := pos st + 36\<rparr>)"
    using assms by (simp add: read32_eq)
  have 3: "\<And>s. pos s = pos st + 36 \<Longrightarrow> read32 bs s = Inr (field32 bs (pos st + 36), s\<lparr>pos := pos st + 40\<rparr>)"
    using assms by (simp add: read32_eq)
  have 4: "\<And>s. pos s = pos st + 40 \<Longrightarrow> read32 bs s = Inr (field32 bs (pos st + 40), s\<lparr>pos := pos st + 44\<rparr>)"
    using assms by (simp add: read32_eq)
  have 5: "\<And>s. pos s = pos st + 44 \<Longrightarrow> read32 bs s = Inr (field32 bs (pos st + 44), s\<lparr>pos := pos st + 48\<rparr>)"
    using assms by (simp add: read32_eq)
  show ?thesis
    unfolding extract_file_def
    apply (simp only: 1 then_do_Inr 2)
    apply (subst 3)
     apply simp
    apply (simp only: then_do_Inr)
    apply (subst 4)
     apply simp
    apply (simp only: then_do_Inr)
    apply (subst 5)
     apply simp
    apply (simp only: then_do_Inr)
    apply (simp add: Let_def warn_def seek_def)
    done
qed

lemma extract_file_open:
  assumes "pos st + 48 \<le> length bs"
    and "\<And>s. can_open e s (os_path_join dir (name_at bs (pos st)))"
  shows "extract_file e bs name dir st =
     Inr (st\<lparr>pos := pos st + 48,
             out_files := out_files st @ [(os_path_join dir (name_at bs (pos st)), payload bs (pos st))],
             warnings := warnings st @ entry_warnings bs name dir (pos st)\<rparr>)"
  by (auto simp add: extract_file_reads[OF assms(1)] assms(2) Let_def seek_def fread_def warn_def
      payload_def entry_warnings_def)

lemma extract_file_ok:
  assumes "pos st + 48 \<le> length bs"
  shows "\<exists>st'. extract_file e bs name dir st = Inr st' \<and> pos st' = pos st + 48 \<and>
           known_files st' = known_files st \<and> processed st' = Suc (processed st)"
  by (auto simp add: extract_file_reads[OF assms(1)] Let_def seek_def fread_def warn_def processed_def)



lemma extract_file_Inr_bound:
  assumes "extract_file e bs name dir st = Inr st'"
  shows "pos st + 48 \<le> length bs"
proof (rule ccontr)
  assume "\<not> pos st + 48 \<le> length bs"
  then have "\<exists>x. extract_file e bs name dir st = Inl x"
    unfolding extract_file_def
    by (simp add: read32_eq read_string32_eq)
  with assms show False by simp
qed

lemma extract_file_pos:
  "extract_file e bs name dir st = Inr st' \<Longrightarrow> pos st' = pos st + 48"
  using extract_file_ok[OF extract_file_Inr_bound, of e bs name dir st st' e name dir] by simp


lemma extract_files_split:
  "extract_files e bs name dir (j + k) st =
     (case extract_files e bs name dir j st of
        Inl err \<Rightarrow> Inl err
      | Inr stj \<Rightarrow> extract_files e bs name dir k stj)"
  by (induction j arbitrary: st) (auto split: sum.splits)

lemma extract_files_pos:
  "extract_files e bs name dir j st = Inr stj \<Longrightarrow> pos stj = pos st + j * 48"
proof (induction j arbitrary: st)
  case 0
  then show ?case by simp
next
  case (Suc j)
  then obtain st1 where 1: "extract_file e bs name dir st = Inr st1"
    and 2: "extract_files e bs name dir j st1 = Inr stj"
    by (auto split: sum.splits)
  from Suc.IH[OF 2] extract_file_pos[OF 1] show ?case by simp
qed


lemma processed_upd [simp]:
  "processed (st\<lparr>pos := p\<rparr>) = processed st"
  "processed (st\<lparr>known_files := k\<rparr>) = processed st"
  "processed (st\<lparr>made_dirs := m\<rparr>) = processed st"
  by (simp_all add: processed_def)







subsection \<open>The example archive, evaluated\<close>

lemma permissive_ok: "can_makedirs permissive s p" "can_open permissive s p"
  by (simp_all add: permissive_def)

lemma ex_chars:
  "char_of (97::nat) = CHR ''a''" "char_of (98::nat) = CHR ''b''" "char_of (47::nat) = CHR ''/''"
  by code_simp+

lemma ex_fields:
  "field32 example_archive 88 = 0xFFFFFFFE" "field32 example_archive 92 = 152"
  "field32 example_archive 96 = 2" "field32 example_archive 100 = 5"
  "field32 example_archive 136 = 7" "field32 example_archive 140 = 153"
  "field32 example_archive 144 = 4" "field32 example_archive 148 = 4"
  by (simp_all add: example_archive_def field32_def le32_value_def)

lemma ex_names: "name_at example_archive 56 = ''a''" "name_at example_archive 104 = ''b''"
  by (simp_all add: example_archive_def name_at_def decode_name_def ex_chars)

lemma ex_payload: "payload example_archive 56 = [7, 8]" "payload example_archive 104 = [8, 9]"
  by (simp_all add: payload_def ex_fields) (simp_all add: example_archive_def)

lemma ex_paths: "os_path_join ''out'' ''a'' = ''out/a''" "os_path_join ''out'' ''b'' = ''out/b''"
  by (simp_all add: os_path_join.simps)

lemma ex_step1:
  assumes "pos st = 56"
  shows "extract_file permissive example_archive ''/'' ''out'' st =
     Inr (st\<lparr>pos := 104, out_files := out_files st @ [(''out/a'', [7, 8])],
             warnings := warnings st @ [SizeMismatch ''a'' ''/'' 2 5]\<rparr>)"
proof -
  have "pos st + 48 \<le> length example_archive"
    by (simp add: assms example_archive_def)
  moreover have "\<And>s. can_open permissive s (os_path_join ''out'' (name_at example_archive (pos st)))"
    by (simp add: permissive_def)
  ultimately show ?thesis
    by (simp add: extract_file_open assms ex_fields ex_names ex_payload ex_paths entry_warnings_def)
qed

lemma ex_step2:
  assumes "pos st = 104"
  shows "extract_file permissive example_archive ''/'' ''out'' st =
     Inr (st\<lparr>pos := 152, out_files := out_files st @ [(''out/b'', [8, 9])],
             warnings := warnings st @ [UnexpectedMarker ''b'' ''/'' 7, ShortPayload ''out/b'' 2 4]\<rparr>)"
proof -
  have "pos st + 48 \<le> length example_archive"
    by (simp add: assms example_archive_def)
  moreover have "\<And>s. can_open permissive s (os_path_join ''out'' (name_at example_archive (pos st)))"
    by (simp add: permissive_def)
  ultimately show ?thesis
    by (simp add: extract_file_open assms ex_fields ex_names ex_payload ex_paths entry_warnings_def)
qed

lemma ex_files:
  assumes "pos st = 56"
  shows "extract_files permissive example_archive ''/'' ''out'' 2 st =
     Inr (st\<lparr>pos := 152,
             out_files := out_files st @ [(''out/a'', [7, 8]), (''out/b'', [8, 9])],
             warnings := warnings st @ [SizeMismatch ''a'' ''/'' 2 5, UnexpectedMarker ''b'' ''/'' 7,
                                        ShortPayload ''out/b'' 2 4]\<rparr>)"
proof -
  have "extract_files permissive example_archive ''/'' ''out'' 2 st =
        extract_files permissive example_archive ''/'' ''out'' (Suc (Suc 0)) st"
    by (simp only: numeral_2_eq_2)
  then show ?thesis
    by (simp add: ex_step1 ex_step2 assms)
qed







section \<open>Claims about the reader\<close>

text \<open>
  Claim C6. For a FileEntry that \<open>extract_pkr\<close> processes, the bytes requested are
  size1 bytes from the entry's payload offset: the reader seeks there, reads, and
  writes what it got to the output file named by the entry. The field size2 takes no
  part in the read; when it differs from size1 the only effect is a warning. The
  theorem gives the whole state after one record whose output file can be opened.
\<close>

theorem extract_file_reads_size1:
  assumes "pos st + 48 \<le> length bs"
    and "\<And>s. can_open e s (os_path_join dir (name_at bs (pos st)))"
  shows "extract_file e bs name dir st =
     Inr (st\<lparr>pos := pos st + 48,
             out_files := out_files st @
               [(os_path_join dir (name_at bs (pos st)),
                 take (field32 bs (pos st + 40)) (drop (field32 bs (pos st + 36)) bs))],
             warnings := warnings st @ entry_warnings bs name dir (pos st)\<rparr>)"
  using extract_file_open[OF assms] by (simp add: payload_def)

theorem extract_file_reads_size1_witness:
  "pos (seek 56 xstate0) + 48 \<le> length example_archive \<and>
   (\<forall>s. can_open permissive s (os_path_join ''out'' (name_at example_archive (pos (seek 56 xstate0))))) \<and>
   field32 example_archive (56 + 40) = 2 \<and> field32 example_archive (56 + 44) = 5 \<and>
   extract_file permissive example_archive ''/'' ''out'' (seek 56 xstate0) =
     Inr \<lparr>pos = 104, known_files = 0, made_dirs = [], out_files = [(''out/a'', [7, 8])],
          warnings = [SizeMismatch ''a'' ''/'' 2 5]\<rparr>"
proof -
  have p: "pos (seek 56 xstate0) = 56" by (simp add: seek_def)
  have h1: "pos (seek 56 xstate0) + 48 \<le> length example_archive"
    by (simp add: p example_archive_def)
  have h2: "\<And>s. can_open permissive s (os_path_join ''out'' (name_at example_archive (pos (seek 56 xstate0))))"
    by (simp add: permissive_def)
  have "extract_file permissive example_archive ''/'' ''out'' (seek 56 xstate0) =
     Inr \<lparr>pos = 104, known_files = 0, made_dirs = [], out_files = [(''out/a'', [7, 8])],
          warnings = [SizeMismatch ''a'' ''/'' 2 5]\<rparr>"
    using extract_file_reads_size1[OF h1 h2, of "''/''"]
    by (simp add: p ex_fields ex_names ex_paths entry_warnings_def ex_payload)
       (simp add: seek_def xstate0_def example_archive_def)
  with h1 h2 show ?thesis by (simp add: ex_fields)
qed

text \<open>
  Claim C7. While one directory's file table is extracted, the payload reads do not
  disturb the iteration over the table: every record leaves the stream 48 bytes after
  the position at which it started, so after the seek to the file-table offset the
  record with index \<open>j\<close> starts at that offset plus \<open>j * 48\<close>, and the loop goes on
  from there.
\<close>

theorem file_table_positions:
  assumes "extract_files e bs name dir j (seek offset st) = Inr stj"
  shows "pos stj = offset + j * 48 \<and>
         (\<forall>k. extract_files e bs name dir (j + k) (seek offset st) = extract_files e bs name dir k stj)"
  using extract_files_pos[OF assms] assms
  by (simp add: extract_files_split seek_def)

theorem file_table_positions_witness:
  "extract_files permissive example_archive ''/'' ''out'' 2 (seek 56 xstate0) =
     Inr \<lparr>pos = 152, known_files = 0, made_dirs = [],
          out_files = [(''out/a'', [7, 8]), (''out/b'', [8, 9])],
          warnings = [SizeMismatch ''a'' ''/'' 2 5, UnexpectedMarker ''b'' ''/'' 7,
                      ShortPayload ''out/b'' 2 4]\<rparr> \<and>
   pos \<lparr>pos = 152, known_files = 0, made_dirs = [],
          out_files = [(''out/a'', [7, 8]), (''out/b'', [8::byte, 9])],
          warnings = [SizeMismatch ''a'' ''/'' 2 5, UnexpectedMarker ''b'' ''/'' 7,
                      ShortPayload ''out/b'' 2 4]\<rparr> = 56 + 2 * 48"
proof -
  have h: "extract_files permissive example_archive ''/'' ''out'' 2 (seek 56 xstate0) =
     Inr \<lparr>pos = 152, known_files = 0, made_dirs = [],
          out_files = [(''out/a'', [7, 8]), (''out/b'', [8, 9])],
          warnings = [SizeMismatch ''a'' ''/'' 2 5, UnexpectedMarker ''b'' ''/'' 7,
                      ShortPayload ''out/b'' 2 4]\<rparr>"
    by (simp add: ex_files seek_def xstate0_def)
  from file_table_positions[OF h] h show ?thesis by blast
qed



text \<open>
  Claim C9. When fewer than size1 bytes are left at the payload offset of a FileEntry
  (none at all when the offset is at or past the end of the stream), \<open>extract_pkr\<close>
  still creates the output file and writes the bytes it got, logs the short read, and
  goes on with the next FileEntry.
\<close>

theorem short_payload_still_written:
  assumes "pos st + 48 \<le> length bs"
    and "length bs - field32 bs (pos st + 36) < field32 bs (pos st + 40)"
    and "\<And>s. can_open e s (os_path_join dir (name_at bs (pos st)))"
  shows "\<exists>st'. extract_file e bs name dir st = Inr st' \<and>
           out_files st' = out_files st @
             [(os_path_join dir (name_at bs (pos st)), drop (field32 bs (pos st + 36)) bs)] \<and>
           length (drop (field32 bs (pos st + 36)) bs) < field32 bs (pos st + 40) \<and>
           ShortPayload (os_path_join dir (name_at bs (pos st)))
             (length bs - field32 bs (pos st + 36)) (field32 bs (pos st + 40)) \<in> set (warnings st') \<and>
           pos st' = pos st + 48 \<and>
           (\<forall>n. extract_files e bs name dir (Suc n) st = extract_files e bs name dir n st')"
proof -
  have d: "payload bs (pos st) = drop (field32 bs (pos st + 36)) bs"
    using assms(2) by (simp add: payload_def)
  have w: "ShortPayload (os_path_join dir (name_at bs (pos st)))
             (length bs - field32 bs (pos st + 36)) (field32 bs (pos st + 40))
           \<in> set (entry_warnings bs name dir (pos st))"
    using assms(2) by (simp add: entry_warnings_def d)
  show ?thesis
    using extract_file_open[OF assms(1) assms(3), of name] assms(2) w
    by (simp add: d)
qed

theorem short_payload_still_written_witness:
  "pos (seek 104 xstate0) + 48 \<le> length example_archive \<and>
   length example_archive - field32 example_archive (pos (seek 104 xstate0) + 36)
     < field32 example_archive (pos (seek 104 xstate0) + 40) \<and>
   (\<forall>s. can_open permissive s (os_path_join ''out'' (name_at example_archive (pos (seek 104 xstate0))))) \<and>
   (\<exists>st'. extract_file permissive example_archive ''/'' ''out'' (seek 104 xstate0) = Inr st' \<and>
          out_files st' = [(''out/b'', [8, 9])] \<and> pos st' = 152)"
proof -
  have p: "pos (seek 104 xstate0) = 104" by (simp add: seek_def)
  have h1: "pos (seek 104 xstate0) + 48 \<le> length example_archive"
    by (simp add: p example_archive_def)
  have h2: "length example_archive - field32 example_archive (pos (seek 104 xstate0) + 36)
     < field32 example_archive (pos (seek 104 xstate0) + 40)"
    by (simp add: p ex_fields) (simp add: example_archive_def)
  have h3: "\<And>s. can_open permissive s (os_path_join ''out'' (name_at example_archive (pos (seek 104 xstate0))))"
    by (simp add: permissive_def)
  have o: "out_files (seek 104 xstate0) = []" by (simp add: seek_def xstate0_def)
  have dr: "drop 153 example_archive = [8, 9]" by (simp add: example_archive_def)
  from short_payload_still_written[OF h1 h2 h3, of "''/''"]
  have "\<exists>st'. extract_file permissive example_archive ''/'' ''out'' (seek 104 xstate0) = Inr st' \<and>
          out_files st' = [(''out/b'', [8, 9])] \<and> pos st' = 152"
    by (auto simp add: p o ex_fields ex_names ex_paths dr)
  with h1 h2 h3 show ?thesis by blast
qed

section \<open>Properties of the writer\<close>

subsection \<open>The plan holds no payload offset\<close>

lemma plan_file_data_fst: "fst (plan_file_data infos (m, c)) = m"
  by (induction infos arbitrary: c) simp_all

lemma layout_plan_no_data_offsets: "file_data_offsets (layout_plan t) = Map.empty"
  by (simp add: layout_plan_def Let_def plan_file_data_fst)

lemma find_SomeD: "find P xs = Some x \<Longrightarrow> x \<in> set xs \<and> P x"
  by (induction xs) (auto split: if_splits)

lemma write_file_entry_no_offsets:
  assumes "file_data_offsets p = Map.empty"
  shows "write_file_entry p d n f =
     (if \<exists>info \<in> set (files_info p). file_key_of (fi_dir info) (fi_name info) = file_key_of d n
      then Inl (KeyError, f) else Inr f)"
proof (cases "find (\<lambda>info. file_key_of (fi_dir info) (fi_name info) = file_key_of d n) (files_info p)")
  case None
  then have "\<not> (\<exists>info \<in> set (files_info p). file_key_of (fi_dir info) (fi_name info) = file_key_of d n)"
    by (simp add: find_None_iff)
  with None show ?thesis
    by (simp add: write_file_entry_def Let_def)
next
  case (Some info)
  then have "\<exists>info \<in> set (files_info p). file_key_of (fi_dir info) (fi_name info) = file_key_of d n"
    by (auto dest: find_SomeD)
  with Some show ?thesis
    by (simp add: write_file_entry_def Let_def dict_get_def assms)
qed

lemma write_file_entries_cong:
  assumes "file_data_offsets p = Map.empty" "file_data_offsets q = Map.empty"
    and "set (files_info p) = set (files_info q)"
  shows "write_file_entries p d ns f = write_file_entries q d ns f"
  by (induction ns arbitrary: f) (simp_all add: write_file_entry_no_offsets assms)

lemma write_file_tables_cong:
  assumes "file_data_offsets p = Map.empty" "file_data_offsets q = Map.empty"
    and "set (files_info p) = set (files_info q)" and "tables p = tables q"
  shows "write_file_tables p ds f = write_file_tables q ds f"
proof (induction ds arbitrary: f)
  case Nil
  show ?case by simp
next
  case (Cons x ds)
  obtain d ns where x: "x = (d, ns)" by (cases x)
  show ?case
    by (simp add: x assms(4) write_file_entries_cong[OF assms(1,2,3)] Cons.IH split: sum.splits)
qed

lemma write_dir_table_cong:
  assumes "tables p = tables q"
  shows "write_dir_table p ds f = write_dir_table q ds f"
proof (induction ds arbitrary: f)
  case Nil
  show ?case by simp
next
  case (Cons x ds)
  obtain d ns where x: "x = (d, ns)" by (cases x)
  show ?case
    by (simp add: x assms Cons.IH split: sum.splits)
qed

lemma write_payloads_no_offsets:
  assumes "file_data_offsets p = Map.empty"
  shows "write_payloads p infos f = (if infos = [] then Inr f else Inl (KeyError, f))"
  by (cases infos) (simp_all add: write_payload_def dict_get_def assms)

lemma write_archive_cong:
  assumes "file_data_offsets p = Map.empty" "file_data_offsets q = Map.empty"
    and "set (files_info p) = set (files_info q)" and "tables p = tables q"
    and "dirs_to_pack p = dirs_to_pack q" and "file_count p = file_count q"
    and "dir_table_size p = dir_table_size q"
  shows "write_archive p f = write_archive q f"
proof -
  have e: "(files_info p = []) = (files_info q = [])"
    using assms(3) by (metis set_empty)
  show ?thesis
    unfolding write_archive_def
    by (simp add: write_header_def assms(4,5,6,7) write_dir_table_cong[OF assms(4)]
        write_file_tables_cong[OF assms(1,2,3,4)] write_payloads_no_offsets assms(1,2) e
        split: sum.splits)
qed

subsection \<open>The dict of directories\<close>

lemma files_of_dict_extend:
  "files_of (dict_extend k vs d) k' = (if k' = k then files_of d k @ vs else files_of d k')"
  by (induction d) (auto simp add: files_of_def)

lemma keys_dict_extend: "fst ` set (dict_extend k vs d) = insert k (fst ` set d)"
proof (induction d)
  case Nil
  show ?case by simp
next
  case (Cons x d)
  obtain a b where x: "x = (a, b)" by (cases x)
  show ?case
  proof (cases "k = a")
    case True
    then show ?thesis by (simp add: x)
  next
    case False
    then show ?thesis using Cons by (simp add: x insert_commute)
  qed
qed

lemma distinct_dict_extend:
  "distinct (map fst d) \<Longrightarrow> distinct (map fst (dict_extend k vs d))"
proof (induction d)
  case Nil
  then show ?case by simp
next
  case (Cons x d)
  obtain a b where x: "x = (a, b)" by (cases x)
  from Cons show ?case
    by (simp add: x keys_dict_extend)
qed

subsection \<open>What the walk collects\<close>

lemma collect_dir_infos:
  "mset (all_files_info (collect_dir e c)) = mset (all_files_info c) + entry_infos (norm_entry e)"
  by (simp add: collect_dir_def Let_def entry_infos_def norm_entry_def split_def)

lemma collect_dir_keys:
  "fst ` set (temp_dirs (collect_dir e c)) =
     insert (pkr_dir_name_of (fst e)) (fst ` set (temp_dirs c))"
  by (simp add: collect_dir_def Let_def keys_dict_extend)

lemma collect_dir_distinct:
  "distinct (map fst (temp_dirs c)) \<Longrightarrow> distinct (map fst (temp_dirs (collect_dir e c)))"
  by (simp add: collect_dir_def Let_def distinct_dict_extend)

lemma collect_dir_count:
  "total_file_count c = length (all_files_info c) \<Longrightarrow>
   total_file_count (collect_dir e c) = length (all_files_info (collect_dir e c))"
  by (simp add: collect_dir_def Let_def)

lemma collect_dir_files:
  assumes "\<And>k. mset (files_of (temp_dirs c) k) =
             image_mset fi_name (filter_mset (\<lambda>i. fi_dir i = k) (mset (all_files_info c)))"
  shows "mset (files_of (temp_dirs (collect_dir e c)) k) =
             image_mset fi_name (filter_mset (\<lambda>i. fi_dir i = k) (mset (all_files_info (collect_dir e c))))"
  by (simp add: collect_dir_def Let_def files_of_dict_extend assms split_def
      image_mset_filter_mset_swap[symmetric] multiset.map_comp comp_def)

lemma fold_collect_infos:
  "mset (all_files_info (fold collect_dir ws c)) =
     mset (all_files_info c) + (\<Sum>ne \<in># image_mset norm_entry (mset ws). entry_infos ne)"
  by (induction ws arbitrary: c) (simp_all add: collect_dir_infos)

lemma fold_collect_keys:
  "fst ` set (temp_dirs (fold collect_dir ws c)) =
     fst ` set (temp_dirs c) \<union> (\<lambda>ne. pkr_dir_name_of (fst ne)) ` set_mset (image_mset norm_entry (mset ws))"
  by (induction ws arbitrary: c) (simp_all add: collect_dir_keys norm_entry_def)

lemma fold_collect_distinct:
  "distinct (map fst (temp_dirs c)) \<Longrightarrow> distinct (map fst (temp_dirs (fold collect_dir ws c)))"
  by (induction ws arbitrary: c) (simp_all add: collect_dir_distinct)

lemma fold_collect_count:
  "total_file_count c = length (all_files_info c) \<Longrightarrow>
   total_file_count (fold collect_dir ws c) = length (all_files_info (fold collect_dir ws c))"
  by (induction ws arbitrary: c) (simp_all add: collect_dir_count)

lemma fold_collect_files:
  "(\<And>k. mset (files_of (temp_dirs c) k) =
             image_mset fi_name (filter_mset (\<lambda>i. fi_dir i = k) (mset (all_files_info c)))) \<Longrightarrow>
   mset (files_of (temp_dirs (fold collect_dir ws c)) k) =
     image_mset fi_name (filter_mset (\<lambda>i. fi_dir i = k) (mset (all_files_info (fold collect_dir ws c))))"
proof (induction ws arbitrary: c)
  case Nil
  then show ?case by simp
next
  case (Cons e ws)
  show ?case
    by (simp, rule Cons.IH, rule collect_dir_files, rule Cons.prems)
qed

subsection \<open>The walk of the same tree in another order\<close>

lemma walk_ms_concat:
  "image_mset norm_entry (mset (concat (map g (filter h xs)))) =
     (\<Sum>x \<in># filter_mset h (mset xs). image_mset norm_entry (mset (g x)))"
  by (induction xs) simp_all

lemma walk_ms_Dir:
  "walk_ms r (Dir files subdirs) =
     add_mset (r, mset files)
       (\<Sum>x \<in># filter_mset (\<lambda>x. \<not> hidden (fst x)) (mset subdirs). walk_ms (child_rel r (fst x)) (snd x))"
proof -
  have "walk_ms r (Dir files subdirs) =
     add_mset (r, mset files)
       (image_mset norm_entry (mset (concat (map (\<lambda>x. os_walk (child_rel r (fst x)) (snd x))
          (filter (\<lambda>x. \<not> hidden (fst x)) subdirs)))))"
    by (simp add: walk_ms_def norm_entry_def child_rel_def split_def)
  then show ?thesis
    by (simp only: walk_ms_concat walk_ms_def)
qed

lemma walk_ms_children:
  assumes "list_all2 (\<lambda>x y. fst x = fst y \<and> walk_ms (child_rel r (fst x)) (snd x) = walk_ms (child_rel r (fst y)) (snd y)) xs ys"
  shows "(\<Sum>x \<in># filter_mset (\<lambda>x. \<not> hidden (fst x)) (mset xs). walk_ms (child_rel r (fst x)) (snd x)) =
         (\<Sum>x \<in># filter_mset (\<lambda>x. \<not> hidden (fst x)) (mset ys). walk_ms (child_rel r (fst x)) (snd x))"
  using assms by (induction rule: list_all2_induct) auto

lemma same_tree_walk_ms:
  "same_tree t t' \<Longrightarrow> walk_ms r t = walk_ms r t'"
proof (induction arbitrary: r rule: same_tree.induct)
  case (same_tree_Dir files files' subdirs subdirs1 subdirs')
  have "list_all2 (\<lambda>x y. fst x = fst y \<and>
          walk_ms (child_rel r (fst x)) (snd x) = walk_ms (child_rel r (fst y)) (snd y)) subdirs subdirs1"
    using same_tree_Dir by (auto elim!: list_all2_mono)
  from walk_ms_children[OF this] same_tree_Dir show ?case
    by (simp add: walk_ms_Dir)
qed

subsection \<open>The sorted directory list is determined by the dict's contents\<close>

lemma keys_dirs_to_pack_of: "map fst (dirs_to_pack_of td) = sort (map fst td)"
  by (simp add: dirs_to_pack_of_def comp_def)

lemma dirs_to_pack_of_determined:
  assumes "distinct (map fst td)" "distinct (map fst td')"
    and "fst ` set td = fst ` set td'"
    and "\<And>k. mset (files_of td k) = mset (files_of td' k)"
  shows "dirs_to_pack_of td = dirs_to_pack_of td'"
proof -
  have f: "\<And>k. sort (files_of td k) = sort (files_of td' k)"
    using assms(4) by (metis sorted_list_of_multiset_mset)
  have "set (map fst td) = set (map fst td')"
    using assms(3) by simp
  then have "mset (map fst td) = mset (map fst td')"
    using set_eq_iff_mset_eq_distinct[OF assms(1,2)] by blast
  then have "sort (map fst td) = sort (map fst td')"
    by (metis sorted_list_of_multiset_mset)
  with f show ?thesis
    by (simp add: dirs_to_pack_of_def)
qed

subsection \<open>The plan of the same tree in another order\<close>

lemma collect_of_walk:
  "mset (all_files_info (collect t)) = (\<Sum>ne \<in># walk_ms ''.'' t. entry_infos ne)"
  "fst ` set (temp_dirs (collect t)) = (\<lambda>ne. pkr_dir_name_of (fst ne)) ` set_mset (walk_ms ''.'' t)"
  "distinct (map fst (temp_dirs (collect t)))"
  "total_file_count (collect t) = length (all_files_info (collect t))"
  unfolding collect_def walk_ms_def
  by (simp_all add: fold_collect_infos fold_collect_keys fold_collect_distinct fold_collect_count)

lemma collect_files:
  "mset (files_of (temp_dirs (collect t)) k) =
     image_mset fi_name (filter_mset (\<lambda>i. fi_dir i = k) (mset (all_files_info (collect t))))"
  unfolding collect_def
  by (rule fold_collect_files) (simp add: files_of_def)

lemma layout_plan_fields:
  "dirs_to_pack (layout_plan t) = dirs_to_pack_of (temp_dirs (collect t))"
  "files_info (layout_plan t) = sort_files_info (all_files_info (collect t))"
  "file_count (layout_plan t) = total_file_count (collect t)"
  "dir_table_size (layout_plan t) = length (dirs_to_pack_of (temp_dirs (collect t))) * dir_entry_size"
  "tables (layout_plan t) =
     plan_file_tables (dirs_to_pack_of (temp_dirs (collect t)))
       \<lparr>dir_offsets = Map.empty, total_file_tables_size = 0,
        current_file_table_offset =
          header_size + length (dirs_to_pack_of (temp_dirs (collect t))) * dir_entry_size\<rparr>"
  by (simp_all add: layout_plan_def Let_def)

lemma same_tree_plan:
  assumes "same_tree t t'"
  shows "dirs_to_pack (layout_plan t) = dirs_to_pack (layout_plan t')"
    and "set (files_info (layout_plan t)) = set (files_info (layout_plan t'))"
    and "file_count (layout_plan t) = file_count (layout_plan t')"
    and "dir_table_size (layout_plan t) = dir_table_size (layout_plan t')"
    and "tables (layout_plan t) = tables (layout_plan t')"
proof -
  have w: "walk_ms ''.'' t = walk_ms ''.'' t'"
    using assms by (rule same_tree_walk_ms)
  have m: "mset (all_files_info (collect t)) = mset (all_files_info (collect t'))"
    by (simp add: collect_of_walk(1) w)
  have d: "dirs_to_pack_of (temp_dirs (collect t)) = dirs_to_pack_of (temp_dirs (collect t'))"
    by (rule dirs_to_pack_of_determined)
       (simp_all add: collect_of_walk(2,3) collect_files w m)
  show "dirs_to_pack (layout_plan t) = dirs_to_pack (layout_plan t')"
    by (simp add: layout_plan_fields d)
  show "set (files_info (layout_plan t)) = set (files_info (layout_plan t'))"
    using m by (simp add: layout_plan_fields sort_files_info_def) (metis set_mset_mset)
  show "file_count (layout_plan t) = file_count (layout_plan t')"
    using m by (simp add: layout_plan_fields collect_of_walk(4)) (metis size_mset)
  show "dir_table_size (layout_plan t) = dir_table_size (layout_plan t')"
    by (simp add: layout_plan_fields d)
  show "tables (layout_plan t) = tables (layout_plan t')"
    by (simp add: layout_plan_fields d)
qed

subsection \<open>The offsets of the file tables\<close>

lemma plan_file_tables_other:
  "k \<notin> fst ` set ds \<Longrightarrow> dir_offsets (plan_file_tables ds p) k = dir_offsets p k"
  by (induction ds arbitrary: p) auto

lemma plan_file_tables_offset:
  "distinct (map fst ds) \<Longrightarrow> i < length ds \<Longrightarrow>
   dir_offsets (plan_file_tables ds p) (fst (ds ! i)) =
     Some (current_file_table_offset p + file_entry_size * sum_list (map (\<lambda>d. length (snd d)) (take i ds)))"
proof (induction ds arbitrary: p i)
  case Nil
  then show ?case by simp
next
  case (Cons x ds)
  obtain k ns where x: "x = (k, ns)" by (cases x)
  show ?case
  proof (cases i)
    case 0
    with Cons.prems show ?thesis
      by (simp add: x plan_file_tables_other)
  next
    case (Suc j)
    with Cons.prems have "distinct (map fst ds)" "j < length ds" by simp_all
    from Cons.IH[OF this] Suc show ?thesis
      by (simp add: x algebra_simps)
  qed
qed

lemma dir_table_offsets_planned:
  assumes "i < length (dirs_to_pack (layout_plan t))"
  shows "dir_offsets (tables (layout_plan t)) (fst (dirs_to_pack (layout_plan t) ! i)) =
     Some (16 + 40 * length (dirs_to_pack (layout_plan t)) +
           48 * sum_list (map (\<lambda>d. length (snd d)) (take i (dirs_to_pack (layout_plan t)))))"
proof -
  have d: "distinct (map fst (dirs_to_pack_of (temp_dirs (collect t))))"
    using collect_of_walk(3)[of t] by (simp add: keys_dirs_to_pack_of)
  from plan_file_tables_offset[OF d] assms show ?thesis
    by (simp add: layout_plan_fields header_size_def dir_entry_size_def file_entry_size_def)
qed

subsection \<open>The scenario, evaluated\<close>

lemma sc_walk:
  "os_walk ''.'' scenario_tree =
     [(''.'', []),
      (''audio'', [(''a.bin'', \<lparr>file_size = 3, file_data = Some [1, 2, 3]\<rparr>),
                   (''b.bin'', \<lparr>file_size = 0, file_data = Some []\<rparr>)])]"
  by (simp add: scenario_tree_def hidden_def)

lemma sc_names: "pkr_dir_name_of ''.'' = ''/''" "pkr_dir_name_of ''audio'' = ''audio/''"
  by (simp_all add: pkr_dir_name_of_def replace_backslash_def Let_def)

lemma sc_collect:
  "collect scenario_tree =
     \<lparr>temp_dirs = [(''/'', []), (''audio/'', [''a.bin'', ''b.bin''])],
      all_files_info = scenario_infos, total_file_count = 2\<rparr>"
  by (simp add: collect_def sc_walk collect_dir_def sc_names hidden_def scenario_infos_def Let_def)

lemma sc_dirs:
  "dirs_to_pack_of [(''/'', []), (''audio/'', [''a.bin'', ''b.bin''])] =
     [(''/'', []), (''audio/'', [''a.bin'', ''b.bin''])]"
  by code_simp

lemma sc_sorted: "sort_files_info scenario_infos = scenario_infos"
  by code_simp

lemma sc_plan:
  "layout_plan scenario_tree =
     \<lparr>dirs_to_pack = [(''/'', []), (''audio/'', [''a.bin'', ''b.bin''])],
      files_info = scenario_infos, file_count = 2, dir_table_size = 80,
      tables = \<lparr>dir_offsets = [''/'' \<mapsto> 96, ''audio/'' \<mapsto> 96],
                total_file_tables_size = 96, current_file_table_offset = 192\<rparr>,
      file_data_offsets = Map.empty\<rparr>"
  by (simp add: layout_plan_def sc_collect sc_dirs sc_sorted Let_def plan_file_data_fst
      header_size_def dir_entry_size_def file_entry_size_def)

lemma sc_bytes:
  "le32_bytes PKR_MAGIC = [80, 75, 82, 50]" "le32_bytes PKR_VERSION = [1, 0, 0, 0]"
  "le32_bytes 2 = [2, 0, 0, 0]" "le32_bytes (Suc (Suc 0)) = [2, 0, 0, 0]" "le32_bytes 0 = [0, 0, 0, 0]" "le32_bytes 96 = [96, 0, 0, 0]"
  by (simp_all add: le32_bytes_def PKR_MAGIC_def PKR_VERSION_def)

lemma sc_encoded:
  "encode_name ''/'' 32 = [47,0,0,0,0,0,0,0, 0,0,0,0,0,0,0,0, 0,0,0,0,0,0,0,0, 0,0,0,0,0,0,0,0]"
  "encode_name ''audio/'' 32 =
     [97,117,100,105,111,47,0,0, 0,0,0,0,0,0,0,0, 0,0,0,0,0,0,0,0, 0,0,0,0,0,0,0,0]"
  by code_simp+

lemma sc_table:
  "write_dir_table (layout_plan scenario_tree) (dirs_to_pack (layout_plan scenario_tree))
     (write_header (layout_plan scenario_tree) \<lparr>wbytes = [], wpos = 0\<rparr>) =
   Inr \<lparr>wbytes = scenario_archive, wpos = 96\<rparr>"
  by (simp add: sc_plan write_header_def write32_def write_string_def fwrite_def sc_bytes
      sc_encoded dict_get_def scenario_archive_def)

lemma sc_has_file:
  "\<exists>info \<in> set scenario_infos. file_key_of (fi_dir info) (fi_name info) = file_key_of ''audio/'' ''a.bin''"
  by (simp add: scenario_infos_def)

lemma sc_file_tables:
  "write_file_tables (layout_plan scenario_tree) (dirs_to_pack (layout_plan scenario_tree))
     \<lparr>wbytes = scenario_archive, wpos = 96\<rparr> =
   Inl (KeyError, \<lparr>wbytes = scenario_archive, wpos = 96\<rparr>)"
  using sc_has_file
  by (simp add: sc_plan dict_get_def write_file_entry_no_offsets wseek_def)

lemma sc_archive:
  "write_archive (layout_plan scenario_tree) \<lparr>wbytes = [], wpos = 0\<rparr> =
     Inl (KeyError, \<lparr>wbytes = scenario_archive, wpos = 96\<rparr>)"
  by (simp add: write_archive_def sc_table sc_file_tables)

lemma sc_repack: "repack_pkr scenario_tree True = (False, Some scenario_archive)"
  by (simp add: repack_pkr_def sc_archive)

lemma sc_chars:
  "char_of (97::nat) = CHR ''a''" "char_of (117::nat) = CHR ''u''" "char_of (100::nat) = CHR ''d''"
  "char_of (105::nat) = CHR ''i''" "char_of (111::nat) = CHR ''o''" "char_of (47::nat) = CHR ''/''"
  by code_simp+

lemma sc_head:
  "field32 scenario_archive 0 = 0x32524B50" "field32 scenario_archive 4 = 1"
  "field32 scenario_archive 8 = 2" "field32 scenario_archive 12 = 2"
  "name_at scenario_archive 16 = ''/''"
  "field32 scenario_archive 48 = 96" "field32 scenario_archive 52 = 0"
  "name_at scenario_archive 56 = ''audio/''"
  "field32 scenario_archive 88 = 96" "field32 scenario_archive 92 = 2"
  by (simp_all add: scenario_archive_def field32_def le32_value_def name_at_def decode_name_def sc_chars)

lemma sc_tables:
  "read_tables permissive scenario_archive ''out'' xstate0 =
     Inr ([\<lparr>de_name = ''/'', de_offset = 96, de_count = 0\<rparr>,
           \<lparr>de_name = ''audio/'', de_offset = 96, de_count = 2\<rparr>],
          \<lparr>pos = 96, known_files = 0, made_dirs = [''out''], out_files = [], warnings = []\<rparr>)"
proof -
  have l: "length scenario_archive = 96" by (simp add: scenario_archive_def)
  have n: "read_dir_entries scenario_archive 2 st = read_dir_entries scenario_archive (Suc (Suc 0)) st" for st
    by (simp only: numeral_2_eq_2)
  show ?thesis
    by (simp add: read_tables_def read32_eq read_string32_eq l xstate0_def sc_head n
        makedirs_def permissive_ok)
qed

lemma sc_export: "export_path ''out'' ''/'' = ''out''" "export_path ''out'' ''audio/'' = ''out/audio''"
  by (simp_all add: export_path_def os_path_join.simps)

lemma sc_short:
  "pos st = 96 \<Longrightarrow> extract_file e scenario_archive name dir st = Inl (ShortRead, st)"
  by (simp add: extract_file_def read_string32_eq scenario_archive_def)

lemma sc_extract:
  "extract_pkr permissive (Content scenario_archive) ''out'' =
     (False, \<lparr>pos = 96, known_files = 2, made_dirs = [''out'', ''out'', ''out/audio''],
              out_files = [], warnings = []\<rparr>)"
proof -
  have n: "extract_files e bs name dir 2 st = extract_files e bs name dir (Suc (Suc 0)) st" for e bs name dir st
    by (simp only: numeral_2_eq_2)
  show ?thesis
    by (simp add: extract_pkr_def extract_body_def sc_tables extract_dir_def sc_export makedirs_def
        permissive_ok seek_def Let_def n sc_short)
qed

subsection \<open>The sorted list of files is determined by the files collected\<close>

lemma filter_key_unique:
  assumes "mset xs = mset ys" and "distinct (map f xs)"
  shows "filter (\<lambda>x. f x = c) xs = filter (\<lambda>x. f x = c) ys"
proof -
  have m: "mset (filter (\<lambda>x. f x = c) xs) = mset (filter (\<lambda>x. f x = c) ys)"
    using assms(1) by simp
  have d: "distinct (map f (filter (\<lambda>x. f x = c) xs))"
    using assms(2) by (rule distinct_map_filter)
  show ?thesis
  proof (cases "filter (\<lambda>x. f x = c) xs")
    case Nil
    with m have "mset (filter (\<lambda>x. f x = c) ys) = {#}"
      by (simp del: mset_filter)
    then have "filter (\<lambda>x. f x = c) ys = []"
      by (simp only: mset_zero_iff)
    with Nil show ?thesis by simp
  next
    case (Cons a as)
    have "set (a # as) = {x \<in> set xs. f x = c}"
      using Cons by (simp add: set_filter[symmetric] del: set_filter)
    then have a: "f a = c" and as: "\<forall>b \<in> set as. f b = c"
      by auto
    have "as = []"
    proof (cases as)
      case Nil
      then show ?thesis .
    next
      case (Cons b bs)
      with as have "f b = c" by simp
      with a d \<open>filter (\<lambda>x. f x = c) xs = a # as\<close> Cons show ?thesis by simp
    qed
    with Cons have x: "filter (\<lambda>x. f x = c) xs = [a]" by simp
    with m have "mset (filter (\<lambda>x. f x = c) ys) = {#a#}"
      by (simp del: mset_filter)
    then have "filter (\<lambda>x. f x = c) ys = [a]"
      by (simp only: mset_single_iff)
    with x show ?thesis by simp
  qed
qed

lemma sort_key_determined:
  assumes "mset xs = mset ys" and "distinct (map f xs)"
  shows "sort_key f xs = sort_key f ys"
proof (rule properties_for_sort_key)
  show "mset (sort_key f ys) = mset xs"
    using assms(1) by simp
  show "sorted (map f (sort_key f ys))"
    by simp
  fix k
  have "filter (\<lambda>x. f x = f k) (sort_key f ys) = filter (\<lambda>x. f x = f k) ys"
    by (rule sort_key_stable)
  also have "\<dots> = filter (\<lambda>x. f x = f k) xs"
    by (rule filter_key_unique[symmetric]) (rule assms)+
  finally show "filter (\<lambda>x. f k = f x) (sort_key f ys) = filter (\<lambda>x. f k = f x) xs"
    by (simp add: eq_commute[of "f k"])
qed

lemma same_tree_files_info:
  assumes "same_tree t t'"
    and "distinct (map info_key (all_files_info (collect t)))"
  shows "files_info (layout_plan t) = files_info (layout_plan t')"
proof -
  have "mset (all_files_info (collect t)) = mset (all_files_info (collect t'))"
    by (simp add: collect_of_walk(1) same_tree_walk_ms[OF assms(1)])
  then show ?thesis
    using assms(2)
    unfolding layout_plan_fields sort_files_info_def info_key_def
    by (rule sort_key_determined)
qed

lemma same_tree_layout_plan:
  assumes "same_tree t t'"
    and "distinct (map info_key (all_files_info (collect t)))"
  shows "layout_plan t = layout_plan t'"
  by (rule plan.equality)
     (simp_all add: same_tree_plan[OF assms(1)] same_tree_files_info[OF assms]
        layout_plan_no_data_offsets)

lemma layout_plan_sorted:
  "sorted (map fst (dirs_to_pack (layout_plan t)))"
  "list_all (\<lambda>d. sorted (snd d)) (dirs_to_pack (layout_plan t))"
  "sorted (map info_key (files_info (layout_plan t)))"
proof -
  show "sorted (map fst (dirs_to_pack (layout_plan t)))"
    by (simp add: layout_plan_fields keys_dirs_to_pack_of)
  show "list_all (\<lambda>d. sorted (snd d)) (dirs_to_pack (layout_plan t))"
    by (simp add: layout_plan_fields dirs_to_pack_of_def list_all_iff)
  show "sorted (map info_key (files_info (layout_plan t)))"
    by (simp add: layout_plan_fields sort_files_info_def info_key_def)
qed

subsection \<open>A tree without files is packed\<close>

lemma plan_file_tables_dom:
  "dom (dir_offsets (plan_file_tables ds p)) = dom (dir_offsets p) \<union> fst ` set ds"
proof (induction ds arbitrary: p)
  case Nil
  show ?case by simp
next
  case (Cons x ds)
  show ?case
    by (cases x) (auto simp add: Cons.IH)
qed

lemma layout_plan_dom:
  "fst ` set (dirs_to_pack (layout_plan t)) \<subseteq> dom (dir_offsets (tables (layout_plan t)))"
  by (simp add: layout_plan_fields plan_file_tables_dom)

lemma write_dir_table_ok:
  "fst ` set ds \<subseteq> dom (dir_offsets (tables p)) \<Longrightarrow> \<exists>f'. write_dir_table p ds f = Inr f'"
proof (induction ds arbitrary: f)
  case Nil
  show ?case by simp
next
  case (Cons x ds)
  obtain d ns where x: "x = (d, ns)" by (cases x)
  from Cons.prems obtain off where "dir_offsets (tables p) d = Some off"
    by (auto simp add: x)
  with Cons show ?case
    by (simp add: x dict_get_def)
qed

lemma write_file_entries_no_files:
  "files_info p = [] \<Longrightarrow> write_file_entries p d ns f = Inr f"
  by (induction ns arbitrary: f) (simp_all add: write_file_entry_def Let_def)

lemma write_file_tables_no_files:
  "files_info p = [] \<Longrightarrow> fst ` set ds \<subseteq> dom (dir_offsets (tables p)) \<Longrightarrow>
   \<exists>f'. write_file_tables p ds f = Inr f'"
proof (induction ds arbitrary: f)
  case Nil
  show ?case by simp
next
  case (Cons x ds)
  obtain d ns where x: "x = (d, ns)" by (cases x)
  from Cons.prems obtain off where "dir_offsets (tables p) d = Some off"
    by (auto simp add: x)
  with Cons show ?case
    by (simp add: x dict_get_def write_file_entries_no_files)
qed

lemma repack_succeeds_without_files:
  assumes "files_info (layout_plan t) = []"
  shows "fst (repack_pkr t True) = True"
proof -
  obtain f1 where 1: "write_dir_table (layout_plan t) (dirs_to_pack (layout_plan t))
      (write_header (layout_plan t) \<lparr>wbytes = [], wpos = 0\<rparr>) = Inr f1"
    using write_dir_table_ok[OF layout_plan_dom] by blast
  obtain f2 where 2: "write_file_tables (layout_plan t) (dirs_to_pack (layout_plan t)) f1 = Inr f2"
    using write_file_tables_no_files[OF assms layout_plan_dom] by blast
  show ?thesis
    by (simp add: repack_pkr_def write_archive_def 1 2 assms Let_def)
qed

lemma empty_dirs_no_files: "files_info (layout_plan empty_dirs_tree) = []"
  by (simp add: layout_plan_fields collect_def empty_dirs_tree_def hidden_def collect_dir_def
      sort_files_info_def Let_def)

lemma sc_keys_distinct: "distinct (map info_key (all_files_info (collect scenario_tree)))"
  by (simp add: sc_collect scenario_infos_def info_key_def)

lemma same_tree_scenario: "same_tree scenario_tree shuffled_scenario_tree"
proof -
  have "same_tree
     (Dir [(''a.bin'', \<lparr>file_size = 3, file_data = Some [1, 2, 3]\<rparr>),
           (''b.bin'', \<lparr>file_size = 0, file_data = Some []\<rparr>)] [])
     (Dir [(''b.bin'', \<lparr>file_size = 0, file_data = Some []\<rparr>),
           (''a.bin'', \<lparr>file_size = 3, file_data = Some [1, 2, 3]\<rparr>)] [])"
    by (rule same_tree_Dir[where ?subdirs1.0 = "[]"]) simp_all
  then show ?thesis
    unfolding scenario_tree_def shuffled_scenario_tree_def
    by (intro same_tree_Dir[where ?subdirs1.0 = "[(''audio'',
           Dir [(''b.bin'', \<lparr>file_size = 0, file_data = Some []\<rparr>),
                (''a.bin'', \<lparr>file_size = 3, file_data = Some [1, 2, 3]\<rparr>)] [])]"]) simp_all
qed

lemma same_tree_empty_dirs: "same_tree empty_dirs_tree shuffled_empty_dirs_tree"
proof -
  have e: "same_tree (Dir [] []) (Dir [] [])"
    by (rule same_tree_Dir[where ?subdirs1.0 = "[]"]) simp_all
  show ?thesis
    unfolding empty_dirs_tree_def shuffled_empty_dirs_tree_def
    by (rule same_tree_Dir[where ?subdirs1.0 = "[(''b'', Dir [] []), (''a'', Dir [] [])]"])
       (simp_all add: e)
qed

lemma shuffled_collect:
  "all_files_info (collect shuffled_scenario_tree) =
     [\<lparr>fi_dir = ''audio/'', fi_name = ''b.bin'', fi_source = Some [], fi_size = 0\<rparr>,
      \<lparr>fi_dir = ''audio/'', fi_name = ''a.bin'', fi_source = Some [1, 2, 3], fi_size = 3\<rparr>]"
  "temp_dirs (collect shuffled_scenario_tree) = [(''/'', []), (''audio/'', [''b.bin'', ''a.bin''])]"
  by (simp_all add: collect_def shuffled_scenario_tree_def hidden_def collect_dir_def sc_names Let_def)

lemma repack_fails_with_any_file:
  assumes "files_info (layout_plan t) \<noteq> []"
  shows "fst (repack_pkr t True) = False"
proof -
  have "\<exists>x. write_archive (layout_plan t) f = Inl x" for f
    using assms
    by (simp add: write_archive_def write_payloads_no_offsets layout_plan_no_data_offsets
        split: sum.splits)
  then obtain err f' where "write_archive (layout_plan t) \<lparr>wbytes = [], wpos = 0\<rparr> = Inl (err, f')"
    by (metis surj_pair)
  then show ?thesis
    by (simp add: repack_pkr_def)
qed

section \<open>Claims about the writer\<close>

text \<open>
  Claim C1 says that \<open>repack_pkr\<close> fails only when the output file cannot be opened,
  and returns True in particular for every tree with a file that is not hidden. The
  code does not: on the scenario of the specification, with an output file that
  opens, the lookup \<open>file_data_offsets[file_key]\<close> of the first file raises
  \<open>KeyError\<close> after the header and the directory table were written, and the function
  returns False. It does so for every tree in which the walk collects a file (lemma
  \<open>repack_fails_with_any_file\<close>).
\<close>

theorem repack_scenario_returns_False:
  "write_archive (layout_plan scenario_tree) \<lparr>wbytes = [], wpos = 0\<rparr> =
     Inl (KeyError, \<lparr>wbytes = scenario_archive, wpos = 96\<rparr>) \<and>
   fst (repack_pkr scenario_tree True) = False"
  by (simp add: sc_archive sc_repack)

text \<open>
  Claim C2 says that every FileEntry record written by \<open>repack_pkr\<close> has 48 bytes,
  with the payload offset between the marker and the two size fields. In the code the
  record of \<open>a.bin\<close> is not written at all, since the plan holds no payload offset
  for it; and were the offset there, whatever its value, the three writes after the
  name would give a record of 44 bytes: name, marker, size, size.
\<close>

theorem file_entry_lacks_payload_offset:
  "write_file_entry (layout_plan scenario_tree) ''audio/'' ''a.bin'' \<lparr>wbytes = [], wpos = 0\<rparr> =
     Inl (KeyError, \<lparr>wbytes = [], wpos = 0\<rparr>) \<and>
   (\<forall>off. write_file_entry
            ((layout_plan scenario_tree)\<lparr>file_data_offsets := [file_key_of ''audio/'' ''a.bin'' \<mapsto> off]\<rparr>)
            ''audio/'' ''a.bin'' \<lparr>wbytes = [], wpos = 0\<rparr> =
          Inr \<lparr>wbytes = encode_name ''a.bin'' 32 @ le32_bytes 0xFFFFFFFE @ le32_bytes 3 @ le32_bytes 3,
               wpos = 44\<rparr>)"
proof -
  have k: "file_key_of ''audio/'' ''a.bin'' = ''audio/a.bin''"
    by (simp add: file_key_of_def replace_backslash_def os_path_join.simps)
  have f: "find (\<lambda>info. file_key_of (fi_dir info) (fi_name info) = ''audio/a.bin'') scenario_infos =
     Some \<lparr>fi_dir = ''audio/'', fi_name = ''a.bin'', fi_source = Some [1, 2, 3], fi_size = 3\<rparr>"
    by (simp add: scenario_infos_def k)
  have l: "length (encode_name ''a.bin'' 32) = 32" "length (le32_bytes v) = 4" for v
    by (simp_all add: encode_name_def le32_bytes_def)
  show ?thesis
    by (simp add: write_file_entry_def sc_plan k f dict_get_def Let_def write32_def
        write_string_def fwrite_def l)
qed

text \<open>
  Claim C3 says that extracting the archive produced by repacking a tree without hidden
  entries gives the tree back. For the scenario of the specification the code does
  not: \<open>repack_pkr\<close> returns False and leaves the 96 bytes of the header and the
  directory table; \<open>extract_pkr\<close> on these bytes makes the directories, finds no
  FileEntry at offset 96, returns False and has written neither \<open>a.bin\<close> nor
  \<open>b.bin\<close>.
\<close>

theorem roundtrip_scenario_loses_files:
  "repack_pkr scenario_tree True = (False, Some scenario_archive) \<and>
   extract_pkr permissive (Content scenario_archive) ''out'' =
     (False, \<lparr>pos = 96, known_files = 2, made_dirs = [''out'', ''out'', ''out/audio''],
              out_files = [], warnings = []\<rparr>)"
  by (simp add: sc_repack sc_extract)

text \<open>
  Claim C4 says that the layout plan gives every directory its file-table offset and
  every file its payload offset. The first half holds in the code (lemma
  \<open>dir_table_offsets_planned\<close>). The second does not: for the scenario, whose payload
  region starts at offset 192, the plan holds no payload offset for \<open>a.bin\<close> and none
  for \<open>b.bin\<close>, while both file tables are planned at offset 96.
\<close>

theorem plan_holds_no_payload_offset:
  "file_data_offsets (layout_plan scenario_tree) (file_key_of ''audio/'' ''a.bin'') = None \<and>
   file_data_offsets (layout_plan scenario_tree) (file_key_of ''audio/'' ''b.bin'') = None \<and>
   dir_offsets (tables (layout_plan scenario_tree)) ''/'' = Some 96 \<and>
   dir_offsets (tables (layout_plan scenario_tree)) ''audio/'' = Some 96 \<and>
   header_size + dir_table_size (layout_plan scenario_tree) +
     total_file_tables_size (tables (layout_plan scenario_tree)) = 192"
  by (simp add: sc_plan header_size_def)

text \<open>
  Claim C5. The bytes that \<open>repack_pkr\<close> writes, and the value it returns, do not
  depend on the order in which the file system enumerates the directories and the files
  of the input tree: the same tree enumerated in two orders gives the same result, and
  two runs on an unchanged tree are the case of the same order. The sorting is what
  makes it so: the directories of the plan are sorted by canonical name, the files of
  each directory and the list of all files are sorted by name, and when no two
  collected files share directory and file name the two enumerations give the same
  layout plan, whatever is then written from it. When two collected files do share
  their name in the archive, the results agree all the same, since no file record and
  no payload is written.
\<close>

theorem repack_deterministic:
  assumes "same_tree t t'"
  shows "repack_pkr t output_opens = repack_pkr t' output_opens \<and>
         dirs_to_pack (layout_plan t) = dirs_to_pack (layout_plan t') \<and>
         sorted (map fst (dirs_to_pack (layout_plan t))) \<and>
         list_all (\<lambda>d. sorted (snd d)) (dirs_to_pack (layout_plan t)) \<and>
         sorted (map info_key (files_info (layout_plan t))) \<and>
         (distinct (map info_key (all_files_info (collect t))) \<longrightarrow>
            layout_plan t = layout_plan t')"
proof -
  have "repack_pkr t output_opens = repack_pkr t' output_opens"
  proof (cases "distinct (map info_key (all_files_info (collect t)))")
    case True
    with assms have "layout_plan t = layout_plan t'"
      by (rule same_tree_layout_plan)
    then show ?thesis
      by (simp add: repack_pkr_def)
  next
    case False
    have "write_archive (layout_plan t) f = write_archive (layout_plan t') f" for f
      by (rule write_archive_cong)
         (simp_all add: layout_plan_no_data_offsets same_tree_plan[OF assms])
    then show ?thesis
      by (simp add: repack_pkr_def)
  qed
  then show ?thesis
    using same_tree_plan(1)[OF assms] layout_plan_sorted[of t] same_tree_layout_plan[OF assms]
    by simp
qed

theorem repack_deterministic_witness:
  "same_tree scenario_tree shuffled_scenario_tree \<and>
   distinct (map info_key (all_files_info (collect scenario_tree))) \<and>
   all_files_info (collect shuffled_scenario_tree) = rev (all_files_info (collect scenario_tree)) \<and>
   layout_plan scenario_tree = layout_plan shuffled_scenario_tree \<and>
   files_info (layout_plan shuffled_scenario_tree) = scenario_infos \<and>
   dirs_to_pack (layout_plan shuffled_scenario_tree) =
     [(''/'', []), (''audio/'', [''a.bin'', ''b.bin''])] \<and>
   same_tree empty_dirs_tree shuffled_empty_dirs_tree \<and>
   repack_pkr empty_dirs_tree True = repack_pkr shuffled_empty_dirs_tree True \<and>
   fst (repack_pkr empty_dirs_tree True) = True"
proof -
  from repack_deterministic[OF same_tree_scenario, of True] sc_keys_distinct
  have p: "layout_plan scenario_tree = layout_plan shuffled_scenario_tree"
    by blast
  have r: "all_files_info (collect shuffled_scenario_tree) = rev (all_files_info (collect scenario_tree))"
    by (simp add: shuffled_collect sc_collect scenario_infos_def)
  from repack_deterministic[OF same_tree_empty_dirs, of True]
  have e: "repack_pkr empty_dirs_tree True = repack_pkr shuffled_empty_dirs_tree True"
    by blast
  from p[symmetric] have "files_info (layout_plan shuffled_scenario_tree) = scenario_infos"
    "dirs_to_pack (layout_plan shuffled_scenario_tree) = [(''/'', []), (''audio/'', [''a.bin'', ''b.bin''])]"
    by (simp_all add: sc_plan)
  with p r e same_tree_scenario same_tree_empty_dirs sc_keys_distinct
    repack_succeeds_without_files[OF empty_dirs_no_files]
  show ?thesis by simp
qed

section \<open>Claims about the volume scaler\<close>

lemma clipped_range:
  "- 32768 \<le> astype_int16 (np_clip x min_val max_val) \<and>
   astype_int16 (np_clip x min_val max_val) \<le> 32767"
  by (auto simp add: astype_int16_def np_clip_def min_val_def max_val_def min_def max_def
      le_floor_iff floor_le_iff ceiling_le_iff le_ceiling_iff)

lemma clipped_saturates:
  "astype_int16 (np_clip x min_val max_val) =
     (if 32767 \<le> x then 32767 else if x \<le> - 32768 then - 32768 else astype_int16 x)"
  by (auto simp add: astype_int16_def np_clip_def min_val_def max_val_def min_def max_def)


lemma even_buffer_as_int16:
  "adjust_volume half_volume (Wav (mono8\<lparr>nframes := 4\<rparr>) [2, 4, 3, 0x80]) writable =
     (True, Some (mono8\<lparr>nframes := 4\<rparr>, [1, 2, 2, 0xC0]))"
  by (simp add: adjust_volume_def frombuffer_int16_def mono8_def int16_of_def half_volume_def
      np_clip_def min_val_def max_val_def astype_int16_def int16_bytes_def Let_def
      setparams_def writable_def)

lemma zero_rate_rejected:
  "adjust_volume half_volume (Wav mono8_rate0 [2, 4, 3, 0x80]) writable = (False, None)"
  by (simp add: adjust_volume_def frombuffer_int16_def mono8_rate0_def setparams_def writable_def
      Let_def)

text \<open>
  Claim C10 says that \<open>adjust_volume\<close> reads the frame buffer as 16-bit samples
  whatever the declared sample width, clips every scaled sample to the 16-bit range,
  and rejects one format condition only, a compression type other than \<open>NONE\<close>,
  so that 8-bit files are misread as 16-bit. As stated it fails: an 8-bit mono file
  with three frames has a buffer of three bytes, \<open>np.frombuffer\<close> raises
  \<open>ValueError\<close> on it, and the function returns False, although the output can be
  written.
\<close>

theorem adjust_volume_odd_buffer_counterexample:
  "comptype mono8 = ''NONE'' \<and> sampwidth mono8 = 1 \<and>
   adjust_volume half_volume (Wav mono8 [1, 2, 3]) writable = (False, None)"
  by (simp add: adjust_volume_def frombuffer_int16_def mono8_def)

text \<open>
  Claim C10 as amended. \<open>adjust_volume\<close> returns True and writes the scaled frames
  exactly when the compression type is \<open>NONE\<close>, the frame buffer has an even number
  of bytes, the \<open>wave\<close> module takes the parameters for writing (at least one
  channel, a sample width of 1 to 4 bytes, a sample rate above 0) and the output file
  opens and is written; in every other case it returns False. Within these limits the
  declared sample width takes no part: the buffer is read as little-endian signed
  16-bit samples, and every scaled sample is clipped to the range from -32768 to 32767
  before the fraction is dropped. An 8-bit file with four frame bytes is scaled as two
  16-bit samples (lemma \<open>even_buffer_as_int16\<close>); the same file with the sample rate
  0 is refused (lemma \<open>zero_rate_rejected\<close>).
\<close>

theorem adjust_volume_int16:
  "adjust_volume times_factor (Wav params frames) out =
     (if comptype params = ''NONE'' \<and> even (length frames) \<and> wave_opens out \<and>
         1 \<le> nchannels params \<and> 1 \<le> sampwidth params \<and> sampwidth params \<le> 4 \<and>
         0 < framerate params \<and>
         frames_written out params
           (concat (map (\<lambda>s. int16_bytes (astype_int16 (np_clip (times_factor s) min_val max_val)))
                        (int16_items frames)))
      then (True, Some (params,
              concat (map (\<lambda>s. int16_bytes (astype_int16 (np_clip (times_factor s) min_val max_val)))
                          (int16_items frames))))
      else (False, None)) \<and>
   (\<forall>s. - 32768 \<le> astype_int16 (np_clip (times_factor s) min_val max_val) \<and>
        astype_int16 (np_clip (times_factor s) min_val max_val) \<le> 32767) \<and>
   (\<forall>s. astype_int16 (np_clip (times_factor s) min_val max_val) =
        (if 32767 \<le> times_factor s then 32767
         else if times_factor s \<le> - 32768 then - 32768
         else astype_int16 (times_factor s)))"
  using clipped_range clipped_saturates
  by (auto simp add: adjust_volume_def frombuffer_int16_def Let_def comp_def map_concat
      even_iff_mod_2_eq_zero setparams_def)

end
